theory Spec2Isabelle
  imports Main "HOL-Library.AList"
begin

section \<open>The square-lattice embedding cache of \<open>tutorial_code/embed_square_lattice.py\<close>\<close>

text \<open>
  The function \<open>embed_square_lattice(sampler, L, try_to_load=True, **kwargs)\<close> builds a
  spin model on an \<open>L\<close> by \<open>L\<close> cylinder, names a cache file after the sampler's chip and
  \<open>L\<close>, and either loads a matrix of embeddings from that file or searches for one and stores
  it. The model below follows the function line by line. Exceptions are values of
  \<open>py_error\<close>; the file system and the calls to the collaborators are an explicit state
  (\<open>world\<close>) that the function receives and returns. The libraries the function calls
  (the embedding search, the conversion to an array, the text reader and writer of arrays)
  are parameters of the model, collected in the record \<open>externals\<close>; nothing is assumed
  about what they compute. The \<open>print\<close> calls and the two readings of the clock
  produce console output only and are left out.
\<close>

subsection \<open>Exceptions\<close>

datatype py_error =
    ValueError
  | FileNotFoundError
  | KeyError
  | UnboundLocalError
  | FileExistsError
  | RuntimeError
  | OSError

subsection \<open>The binary quadratic model\<close>

text \<open>
  A \<open>dimod.BinaryQuadraticModel\<close> keeps its variables in the order they were added, each
  with a linear bias, and one bias per unordered pair of interacting variables. Both are
  association lists here, in insertion order as in Python's dictionaries. The pair
  \<open>{u, v}\<close> is stored under the key \<open>edge u v\<close>, smaller label first, so that
  \<open>(u, v)\<close> and \<open>(v, u)\<close> name the same interaction, as in dimod.
\<close>

record bqm =
  linear :: "(int \<times> int) list"
  quadratic :: "((int \<times> int) \<times> int) list"

definition empty_bqm :: bqm where
  "empty_bqm = \<lparr>linear = [], quadratic = []\<rparr>"

definition variables :: "bqm \<Rightarrow> int list" where
  "variables b = map fst (linear b)"

definition edge :: "int \<Rightarrow> int \<Rightarrow> int \<times> int" where
  "edge u v = (min u v, max u v)"

text \<open>\<open>bqm.add_variable(v)\<close>: a new variable gets bias 0; adding 0 to the bias of a
  variable that is already there changes nothing.\<close>

definition add_variable :: "int \<Rightarrow> bqm \<Rightarrow> bqm" where
  "add_variable v b =
     (if v \<in> set (variables b) then b else b\<lparr>linear := linear b @ [(v, 0)]\<rparr>)"

text \<open>\<open>bqm.set_quadratic(u, v, bias)\<close>: dimod refuses an interaction of a variable with
  itself by raising \<open>ValueError\<close>; otherwise it adds the variables that are missing and
  sets (overwrites, does not add to) the bias of the pair.\<close>

definition set_quadratic :: "int \<Rightarrow> int \<Rightarrow> int \<Rightarrow> bqm \<Rightarrow> py_error + bqm" where
  "set_quadratic u v bias b =
     (if u = v then Inl ValueError
      else (let b' = add_variable v (add_variable u b)
            in Inr (b'\<lparr>quadratic := AList.update (edge u v) bias (quadratic b')\<rparr>)))"

subsection \<open>Loops\<close>

text \<open>\<open>range(L)\<close> for an integer \<open>L\<close>: the numbers from 0 below \<open>L\<close>, none when
  \<open>L \<le> 0\<close>.\<close>

definition range_py :: "int \<Rightarrow> int list" where
  "range_py L = map int [0..<nat L]"

text \<open>A \<open>for\<close> loop whose body may raise: the first exception ends the loop.\<close>

fun for_each :: "('a \<Rightarrow> 's \<Rightarrow> py_error + 's) \<Rightarrow> 'a list \<Rightarrow> 's \<Rightarrow> py_error + 's" where
  "for_each body [] s = Inr s"
| "for_each body (x # xs) s =
     (case body x s of Inl e \<Rightarrow> Inl e | Inr s' \<Rightarrow> for_each body xs s')"

subsection \<open>Construction of the lattice model (lines 37 to 50)\<close>

text \<open>The body of the second pair of loops, for one site \<open>(x, y)\<close>.\<close>

definition couple_site :: "int \<Rightarrow> int \<Rightarrow> int \<Rightarrow> bqm \<Rightarrow> py_error + bqm" where
  "couple_site L x y b =
     (case (if (x + y) mod 2 \<noteq> 0
            then set_quadratic (x * L + y) (x * L + ((y + 1) mod L)) 1 b
            else set_quadratic (x * L + y) (x * L + ((y + 1) mod L)) (- 1) b) of
        Inl e \<Rightarrow> Inl e
      | Inr b1 \<Rightarrow>
          if x < L - 1 then set_quadratic (x * L + y) ((x + 1) * L + y) 1 b1
          else Inr b1)"

definition add_sites :: "int \<Rightarrow> bqm \<Rightarrow> bqm" where
  "add_sites L b =
     fold (\<lambda>x. fold (\<lambda>y. add_variable (x * L + y)) (range_py L)) (range_py L) b"

definition couple_sites :: "int \<Rightarrow> bqm \<Rightarrow> py_error + bqm" where
  "couple_sites L b =
     for_each (\<lambda>x. for_each (\<lambda>y. couple_site L x y) (range_py L)) (range_py L) b"

definition build_bqm :: "int \<Rightarrow> py_error + bqm" where
  "build_bqm L = couple_sites L (add_sites L empty_bqm)"

subsection \<open>The two graphs (lines 52 and 53)\<close>

text \<open>\<open>dimod.to_networkx_graph(bqm)\<close>: the variables become the nodes, the interactions
  the edges, each with its bias. \<open>G.nodes()\<close> lists the node labels.\<close>

record nx_graph =
  node_bias :: "(int \<times> int) list"
  edge_bias :: "((int \<times> int) \<times> int) list"

definition to_networkx_graph :: "bqm \<Rightarrow> nx_graph" where
  "to_networkx_graph b = \<lparr>node_bias = linear b, edge_bias = quadratic b\<rparr>"

definition nodes :: "nx_graph \<Rightarrow> int list" where
  "nodes G = map fst (node_bias G)"

text \<open>The sampler: its hardware graph (of a type \<open>'tg\<close> the function never looks into) and
  its dictionary of properties.\<close>

record 'tg sampler =
  sampler_graph :: "'tg"
  properties :: "string \<rightharpoonup> string"

subsection \<open>The name of the cache file (lines 55 and 56)\<close>

text \<open>Decimal digits of a natural number, most significant first.\<close>

definition digit_char :: "nat \<Rightarrow> char" where
  "digit_char d = ''0123456789'' ! d"

fun dec :: "nat \<Rightarrow> string" where
  "dec n = (if n < 10 then [digit_char n] else dec (n div 10) @ [digit_char (n mod 10)])"

declare dec.simps [simp del]

text \<open>The format specification \<open>0\<close>\<open>width\<close>\<open>d\<close> of Python: the sign of a negative
  number, then zeros up to the width, then the digits.\<close>

definition format_0d :: "nat \<Rightarrow> int \<Rightarrow> string" where
  "format_0d width n =
     (let sign = (if n < 0 then ''-'' else '''');
          ds = dec (nat \<bar>n\<bar>)
      in sign @ replicate (width - length sign - length ds) (CHR ''0'') @ ds)"

definition cache_filename :: "string \<Rightarrow> int \<Rightarrow> string" where
  "cache_filename solver_name L =
     ''cached_embeddings/'' @ solver_name @ ''__L'' @ format_0d 2 L
       @ ''_square_embeddings_cached.txt''"

subsection \<open>The world: files, directories and the calls made\<close>

text \<open>
  Every call that leaves the function is recorded: reading a file, the lower-bound
  estimate, the search with its time budget and raster breadth, the conversion with the
  node order it is given, creating the directory, writing a file. \<open>files\<close> gives the
  text of each regular file by its path, \<open>dirs\<close> the directories that exist, each named
  with its final \<open>/\<close>. The operating system may refuse to create a directory or to
  write a file (no permission, no space): \<open>fault\<close> gives the exception it raises for such
  a call, if any. What the reader of arrays does with a file that is there, raising
  included, is the collaborator \<open>parse_int_matrix\<close> below.
\<close>

datatype event =
    Loadtxt string
  | LowerBound
  | Search int int
  | ToNdarray "int list"
  | Makedirs string
  | Savetxt string

record world =
  files :: "string \<rightharpoonup> string"
  dirs :: "string set"
  trace :: "event list"
  fault :: "event \<rightharpoonup> py_error"

definition log_event :: "event \<Rightarrow> world \<Rightarrow> world" where
  "log_event ev w = w\<lparr>trace := trace w @ [ev]\<rparr>"

text \<open>
  The collaborators. \<open>'tg\<close> is the hardware graph, \<open>'emb\<close> what the search returns,
  \<open>'arr\<close> a numpy array. The search takes the source graph, the target graph, the timeout
  and the raster breadth. \<open>parse_int_matrix\<close> is what \<open>np.loadtxt(_, dtype=int)\<close> makes
  of the text of a file, \<open>format_int_matrix\<close> the text \<open>np.savetxt(_, _, fmt='%d')\<close>
  writes for an array.
\<close>

record ('tg, 'emb, 'arr) externals =
  raster_breadth_subgraph_lower_bound :: "nx_graph \<Rightarrow> 'tg \<Rightarrow> py_error + int"
  raster_embedding_search :: "nx_graph \<Rightarrow> 'tg \<Rightarrow> int \<Rightarrow> int \<Rightarrow> py_error + 'emb"
  embeddings_to_ndarray :: "'emb \<Rightarrow> int list \<Rightarrow> py_error + 'arr"
  parse_int_matrix :: "string \<Rightarrow> py_error + 'arr"
  format_int_matrix :: "'arr \<Rightarrow> string"

definition np_loadtxt ::
  "('tg, 'emb, 'arr) externals \<Rightarrow> string \<Rightarrow> world \<Rightarrow> (py_error + 'arr) \<times> world" where
  "np_loadtxt ext path w =
     (case files w path of
        None \<Rightarrow> (Inl FileNotFoundError, log_event (Loadtxt path) w)
      | Some text \<Rightarrow> (parse_int_matrix ext text, log_event (Loadtxt path) w))"

text \<open>A path without its final slashes, and the directory part of a path (up to and
  with its last \<open>/\<close>).\<close>

definition strip_slash :: "string \<Rightarrow> string" where
  "strip_slash path = rev (dropWhile (\<lambda>c. c = CHR ''/'') (rev path))"

definition parent_dir :: "string \<Rightarrow> string" where
  "parent_dir path = rev (dropWhile (\<lambda>c. c \<noteq> CHR ''/'') (rev path))"

text \<open>\<open>os.makedirs(path, exist_ok=True)\<close>: raises what the operating system raises;
  raises \<open>FileExistsError\<close> when a regular file has that name; otherwise the directory
  exists afterwards (it may have existed before).\<close>

definition os_makedirs :: "string \<Rightarrow> world \<Rightarrow> (py_error + unit) \<times> world" where
  "os_makedirs path w =
     (let w1 = log_event (Makedirs path) w in
      case fault w (Makedirs path) of
        Some e \<Rightarrow> (Inl e, w1)
      | None \<Rightarrow>
          (case files w (strip_slash path) of
             Some text \<Rightarrow> (Inl FileExistsError, w1)
           | None \<Rightarrow> (Inr (), w1\<lparr>dirs := insert path (dirs w1)\<rparr>)))"

text \<open>\<open>np.savetxt(path, a, fmt='%d')\<close>: raises what the operating system raises; raises
  \<open>FileNotFoundError\<close> when the directory of the path does not exist; otherwise the file
  holds the text of the array afterwards, whatever it held before.\<close>

definition np_savetxt ::
  "('tg, 'emb, 'arr) externals \<Rightarrow> string \<Rightarrow> 'arr \<Rightarrow> world \<Rightarrow> (py_error + unit) \<times> world" where
  "np_savetxt ext path a w =
     (let w1 = log_event (Savetxt path) w in
      case fault w (Savetxt path) of
        Some e \<Rightarrow> (Inl e, w1)
      | None \<Rightarrow>
          if parent_dir path \<in> dirs w
          then (Inr (), w1\<lparr>files := (files w1)(path \<mapsto> format_int_matrix ext a)\<rparr>)
          else (Inl FileNotFoundError, w1))"

subsection \<open>The search (lines 68 to 76)\<close>

text \<open>\<open>sorted(G.nodes())\<close>.\<close>

definition node_order :: "nx_graph \<Rightarrow> int list" where
  "node_order G = sort (nodes G)"

definition find_embeddings ::
  "('tg, 'emb, 'arr) externals \<Rightarrow> nx_graph \<Rightarrow> 'tg \<Rightarrow> world \<Rightarrow> (py_error + 'arr) \<times> world" where
  "find_embeddings ext G A w =
     (let w1 = log_event LowerBound w in
      case raster_breadth_subgraph_lower_bound ext G A of
        Inl e \<Rightarrow> (Inl e, w1)
      | Inr lower_bound \<Rightarrow>
          (let w2 = log_event (Search 10 6) w1 in
           case raster_embedding_search ext G A 10 6 of
             Inl e \<Rightarrow> (Inl e, w2)
           | Inr found \<Rightarrow>
               (embeddings_to_ndarray ext found (node_order G),
                log_event (ToNdarray (node_order G)) w2)))"

subsection \<open>Storing and returning (lines 78 to 81)\<close>

text \<open>The local variable \<open>embeddings\<close> is \<open>None\<close> while nothing has been assigned to it;
  reading it then raises \<open>UnboundLocalError\<close>, after the directory has been made. An
  exception of \<open>os.makedirs\<close> or of \<open>np.savetxt\<close> ends the call.\<close>

definition store_and_return ::
  "('tg, 'emb, 'arr) externals \<Rightarrow> string \<Rightarrow> 'arr option \<Rightarrow> bqm \<Rightarrow> world
     \<Rightarrow> (py_error + ('arr \<times> bqm)) \<times> world" where
  "store_and_return ext path embeddings b w =
     (case os_makedirs ''cached_embeddings/'' w of
        (Inl e, w1) \<Rightarrow> (Inl e, w1)
      | (Inr made, w1) \<Rightarrow>
          (case embeddings of
             None \<Rightarrow> (Inl UnboundLocalError, w1)
           | Some a \<Rightarrow>
               (case np_savetxt ext path a w1 of
                  (Inl e, w2) \<Rightarrow> (Inl e, w2)
                | (Inr saved, w2) \<Rightarrow> (Inr (a, b), w2))))"

subsection \<open>The function\<close>

text \<open>The keyword arguments are a dictionary from names to values of any type \<open>'kw\<close>.\<close>

definition embed_square_lattice ::
  "('tg, 'emb, 'arr) externals \<Rightarrow> 'tg sampler \<Rightarrow> int \<Rightarrow> bool \<Rightarrow> (string \<rightharpoonup> 'kw) \<Rightarrow> world
     \<Rightarrow> (py_error + ('arr \<times> bqm)) \<times> world" where
  "embed_square_lattice ext sampler L try_to_load kwargs w =
     (case build_bqm L of
        Inl e \<Rightarrow> (Inl e, w)
      | Inr b \<Rightarrow>
          (let G = to_networkx_graph b;
               A = sampler_graph sampler
           in case properties sampler ''chip_id'' of
                None \<Rightarrow> (Inl KeyError, w)
              | Some solver_name \<Rightarrow>
                  (let path = cache_filename solver_name L in
                   if try_to_load then
                     (case np_loadtxt ext path w of
                        (Inr embeddings, w1) \<Rightarrow> (Inr (embeddings, b), w1)
                      | (Inl e, w1) \<Rightarrow>
                          if e = ValueError \<or> e = FileNotFoundError then
                            (case find_embeddings ext G A w1 of
                               (Inl e', w2) \<Rightarrow> (Inl e', w2)
                             | (Inr embeddings, w2) \<Rightarrow>
                                 store_and_return ext path (Some embeddings) b w2)
                          else (Inl e, w1))
                   else store_and_return ext path None b w)))"

subsection \<open>Reading a stored weight\<close>

text \<open>\<open>bqm.get_quadratic(u, v)\<close>: the bias of the pair, \<open>None\<close> when the two variables do
  not interact (dimod raises there).\<close>

definition get_quadratic :: "bqm \<Rightarrow> int \<Rightarrow> int \<Rightarrow> int option" where
  "get_quadratic b u v = map_of (quadratic b) (edge u v)"

text \<open>The events a call has added to the trace of the world it started in.\<close>

definition new_events :: "world \<Rightarrow> world \<Rightarrow> event list" where
  "new_events w w' = drop (length (trace w)) (trace w')"

text \<open>What a call for the cache file \<open>path\<close> may do to the world: add events that
  name no other file, change no other file, and leave the faults as they are.\<close>

definition only_touches :: "string \<Rightarrow> world \<Rightarrow> world \<Rightarrow> bool" where
  "only_touches path w w' \<longleftrightarrow>
     (\<exists>evs. trace w' = trace w @ evs
          \<and> set evs \<subseteq> {Loadtxt path, Savetxt path, Makedirs ''cached_embeddings/'',
                          LowerBound, Search 10 6} \<union> range ToNdarray)
     \<and> (\<forall>q. q \<noteq> path \<longrightarrow> files w' q = files w q)
     \<and> fault w' = fault w"

subsection \<open>Reading a number back, and the labels of the sites\<close>

text \<open>The value of a string of decimal digits, and the integer a string written by
  \<open>format_0d\<close> stands for. They are used to show that two sizes never get the same
  text.\<close>

definition digits_value :: "string \<Rightarrow> nat" where
  "digits_value s = foldl (\<lambda>a c. 10 * a + (of_char c - 48)) 0 s"

definition decode_0d :: "string \<Rightarrow> int" where
  "decode_0d s =
     (case s of
        [] \<Rightarrow> 0
      | c # cs \<Rightarrow> if c = CHR ''-'' then - int (digits_value cs) else int (digits_value s))"

text \<open>The labels \<open>x * L + y\<close> of the sites of the lattice.\<close>

definition sites :: "int \<Rightarrow> int set" where
  "sites L = (\<lambda>(x, y). x * L + y) ` ({0..<L} \<times> {0..<L})"

section \<open>Test doubles for the collaborators\<close>

text \<open>
  The theorems below hold for all collaborators. To run the function on concrete inputs
  they are instantiated with the following stand-ins: a hardware graph without content, a
  search that returns a fixed list of embeddings or fails, a conversion that returns what
  it is given, and a reader and writer for matrices of integers as lines of decimal
  numbers separated by blanks. They stand for no library and serve as concrete inputs
  only.
\<close>

fun split_on :: "char \<Rightarrow> string \<Rightarrow> string list" where
  "split_on c [] = [[]]"
| "split_on c (x # xs) =
     (if x = c then [] # split_on c xs
      else (case split_on c xs of [] \<Rightarrow> [[x]] | w # ws \<Rightarrow> (x # w) # ws))"

fun join_with :: "string \<Rightarrow> string list \<Rightarrow> string" where
  "join_with sep [] = []"
| "join_with sep [w] = w"
| "join_with sep (w # ws) = w @ sep @ join_with sep ws"

definition digit_val :: "char \<Rightarrow> nat option" where
  "digit_val c = (if c \<in> set ''0123456789'' then Some (of_char c - 48) else None)"

definition parse_nat :: "string \<Rightarrow> nat option" where
  "parse_nat s =
     (if s = [] then None
      else map_option (foldl (\<lambda>a d. 10 * a + d) 0) (those (map digit_val s)))"

definition parse_int :: "string \<Rightarrow> int option" where
  "parse_int s =
     (case s of
        [] \<Rightarrow> None
      | c # cs \<Rightarrow> if c = CHR ''-'' then map_option (\<lambda>n. - int n) (parse_nat cs)
                  else map_option int (parse_nat s))"

definition words_of :: "char \<Rightarrow> string \<Rightarrow> string list" where
  "words_of c s = filter (\<lambda>w. w \<noteq> []) (split_on c s)"

definition stub_parse :: "string \<Rightarrow> py_error + int list list" where
  "stub_parse text =
     (case those (map (\<lambda>line. those (map parse_int (words_of (CHR '' '') line)))
                     (words_of (CHR 0x0A) text)) of
        None \<Rightarrow> Inl ValueError
      | Some a \<Rightarrow> if list_all (\<lambda>row. length row = length (hd a)) a then Inr a
                  else Inl ValueError)"

definition stub_format :: "int list list \<Rightarrow> string" where
  "stub_format a = concat (map (\<lambda>row. join_with '' '' (map (format_0d 0) row) @ [CHR 0x0A]) a)"

definition stub_externals ::
  "(py_error + int list list) \<Rightarrow> (unit, int list list, int list list) externals" where
  "stub_externals found =
     \<lparr>raster_breadth_subgraph_lower_bound = (\<lambda>G A. Inr 1),
      raster_embedding_search = (\<lambda>G A timeout raster_breadth. found),
      embeddings_to_ndarray = (\<lambda>embs order. Inr embs),
      parse_int_matrix = stub_parse,
      format_int_matrix = stub_format\<rparr>"

definition stub_sampler :: "unit sampler" where
  "stub_sampler = \<lparr>sampler_graph = (), properties = [''chip_id'' \<mapsto> ''chipA'']\<rparr>"

definition empty_world :: world where
  "empty_world = \<lparr>files = Map.empty, dirs = {}, trace = [], fault = Map.empty\<rparr>"

definition no_kwargs :: "string \<rightharpoonup> int" where
  "no_kwargs = Map.empty"

text \<open>The model for \<open>L = 2\<close>, and a world whose cache file for \<open>chipA\<close> and
  \<open>L = 2\<close> holds text that is no matrix of integers.\<close>

definition bqm_2 :: bqm where
  "bqm_2 = \<lparr>linear = [(0, 0), (1, 0), (2, 0), (3, 0)],
      quadratic = [((0, 1), 1), ((0, 2), 1), ((1, 3), 1), ((2, 3), - 1)]\<rparr>"


definition cached_world_1 :: world where
  "cached_world_1 = empty_world\<lparr>files :=
      [''cached_embeddings/chipA__L01_square_embeddings_cached.txt'' \<mapsto> ''7'']\<rparr>"


section \<open>Properties\<close>

subsection \<open>Loops and the world\<close>

lemma range_py_1: "range_py 1 = [0]"
  by (simp add: range_py_def)

lemma range_py_2: "range_py 2 = [0, 1]"
  by (simp add: range_py_def upt_rec)

lemma build_bqm_1: "build_bqm 1 = Inl ValueError"
  by (simp add: build_bqm_def couple_sites_def couple_site_def set_quadratic_def range_py_1)

lemma trace_log_event: "trace (log_event ev w) = trace w @ [ev]"
  by (simp add: log_event_def)

lemma files_log_event: "files (log_event ev w) = files w"
  by (simp add: log_event_def)

lemma dirs_log_event: "dirs (log_event ev w) = dirs w"
  by (simp add: log_event_def)

lemma new_events_append: "trace w' = trace w @ evs \<Longrightarrow> new_events w w' = evs"
  by (simp add: new_events_def)

subsection \<open>Loops that may raise\<close>

lemma for_each_success:
  assumes "\<And>x s. x \<in> set xs \<Longrightarrow> \<exists>s'. body x s = Inr s'"
  shows "\<exists>s'. for_each body xs s = Inr s'"
  using assms
proof (induction xs arbitrary: s)
  case Nil
  then show ?case by simp
next
  case (Cons x xs)
  obtain s1 where "body x s = Inr s1" using Cons.prems [of x s] by auto
  moreover have "\<exists>s'. for_each body xs s1 = Inr s'"
    by (rule Cons.IH) (simp add: Cons.prems)
  ultimately show ?case by simp
qed

lemma for_each_invariant:
  assumes "for_each body xs s = Inr s'" and "I s"
    and "\<And>x s s'. x \<in> set xs \<Longrightarrow> I s \<Longrightarrow> body x s = Inr s' \<Longrightarrow> I s'"
  shows "I s'"
  using assms
proof (induction xs arbitrary: s)
  case Nil
  then show ?case by simp
next
  case (Cons x xs)
  from Cons.prems(1) obtain s1 where s1: "body x s = Inr s1" "for_each body xs s1 = Inr s'"
    by (auto split: sum.splits)
  have "I s1" using Cons.prems(3) [of x s s1] Cons.prems(2) s1(1) by simp
  with s1(2) show ?case
  proof (rule Cons.IH)
    fix z t t'
    assume "z \<in> set xs" "I t" "body z t = Inr t'"
    then show "I t'" using Cons.prems(3) [of z t t'] by simp
  qed
qed

lemma for_each_establish:
  assumes "for_each body xs s = Inr s'" and "x0 \<in> set xs"
    and "\<And>s s'. body x0 s = Inr s' \<Longrightarrow> Q s'"
    and "\<And>x s s'. x \<in> set xs \<Longrightarrow> Q s \<Longrightarrow> body x s = Inr s' \<Longrightarrow> Q s'"
  shows "Q s'"
  using assms
proof (induction xs arbitrary: s)
  case Nil
  then show ?case by simp
next
  case (Cons x xs)
  from Cons.prems(1) obtain s1 where s1: "body x s = Inr s1" "for_each body xs s1 = Inr s'"
    by (auto split: sum.splits)
  show ?case
  proof (cases "x0 = x")
    case True
    then have "Q s1" using Cons.prems(3) s1(1) by simp
    with s1(2) show ?thesis
    proof (rule for_each_invariant)
      fix z t t'
      assume "z \<in> set xs" "Q t" "body z t = Inr t'"
      then show "Q t'" using Cons.prems(4) [of z t t'] by simp
    qed
  next
    case False
    then have "x0 \<in> set xs" using Cons.prems(2) by simp
    with s1(2) show ?thesis
    proof (rule Cons.IH)
      fix t t'
      assume "body x0 t = Inr t'"
      then show "Q t'" by (rule Cons.prems(3))
    next
      fix z t t'
      assume "z \<in> set xs" "Q t" "body z t = Inr t'"
      then show "Q t'" using Cons.prems(4) [of z t t'] by simp
    qed
  qed
qed

subsection \<open>Arithmetic of the site labels\<close>

lemma set_range_py: "set (range_py L) = {0..<L}"
proof (cases "0 \<le> L")
  case True
  then show ?thesis by (simp add: range_py_def image_int_atLeastLessThan)
next
  case False
  then show ?thesis by (simp add: range_py_def)
qed

lemma succ_mod: "0 \<le> y \<Longrightarrow> y < L \<Longrightarrow> (y + 1) mod L = (if y + 1 = L then 0 else y + (1::int))"
  by (simp add: mod_pos_pos_trivial)

lemma site_div: "0 \<le> y \<Longrightarrow> y < L \<Longrightarrow> (x * L + y) div L = (x::int)"
  by simp

lemma site_mod: "0 \<le> y \<Longrightarrow> y < L \<Longrightarrow> (x * L + y) mod L = (y::int)"
  by simp

lemma site_inj:
  assumes "0 \<le> y" "y < L" "0 \<le> y'" "y' < L" "x * L + y = x' * L + (y'::int)"
  shows "x = x' \<and> y = y'"
  using site_div [OF assms(1,2), of x] site_div [OF assms(3,4), of x']
    site_mod [OF assms(1,2), of x] site_mod [OF assms(3,4), of x'] assms(5)
  by simp

lemma edge_eq_iff: "edge a b = edge c d \<longleftrightarrow> (a = c \<and> b = d) \<or> (a = d \<and> b = c)"
  by (auto simp add: edge_def min_def max_def)

lemma mod_in_range: "0 < L \<Longrightarrow> 0 \<le> (y + 1) mod L \<and> (y + 1) mod L < (L::int)"
  by simp

lemma keys_H_H:
  assumes "3 \<le> L" "0 \<le> y" "y < L" "0 \<le> y0" "y0 < L"
    and "edge (x * L + y) (x * L + (y + 1) mod L) = edge (x0 * L + y0) (x0 * L + (y0 + 1) mod L)"
  shows "x = x0 \<and> y = y0"
proof -
  have L: "0 < L" using assms(1) by simp
  note r = mod_in_range [OF L, of y] mod_in_range [OF L, of y0]
  from assms(6) consider
      (same) "x * L + y = x0 * L + y0"
    | (swap) "x * L + y = x0 * L + (y0 + 1) mod L" "x * L + (y + 1) mod L = x0 * L + y0"
    by (auto simp add: edge_eq_iff)
  then show ?thesis
  proof cases
    case same
    then show ?thesis using site_inj [OF assms(2,3,4,5)] by simp
  next
    case swap
    have a: "y = (y0 + 1) mod L"
      using site_inj [OF assms(2,3) _ _ swap(1)] r by simp
    have b: "(y + 1) mod L = y0"
      using site_inj [OF _ _ assms(4,5) swap(2)] r by simp
    from a b have False
      using assms(1-5) by (simp add: succ_mod split: if_splits)
    then show ?thesis ..
  qed
qed

lemma keys_V_H:
  assumes "0 < L" "0 \<le> y" "y < L" "0 \<le> y0" "y0 < L"
  shows "edge (x * L + y) ((x + 1) * L + y) \<noteq> edge (x0 * L + y0) (x0 * L + (y0 + 1) mod L)"
proof
  assume e: "edge (x * L + y) ((x + 1) * L + y) = edge (x0 * L + y0) (x0 * L + (y0 + 1) mod L)"
  note r = mod_in_range [OF assms(1), of y0]
  from e consider
      (same) "x * L + y = x0 * L + y0" "(x + 1) * L + y = x0 * L + (y0 + 1) mod L"
    | (swap) "x * L + y = x0 * L + (y0 + 1) mod L" "(x + 1) * L + y = x0 * L + y0"
    by (auto simp add: edge_eq_iff)
  then show False
  proof cases
    case same
    have "x = x0" using site_inj [OF assms(2,3,4,5) same(1)] by simp
    moreover have "x + 1 = x0" using site_inj [OF assms(2,3) _ _ same(2)] r by simp
    ultimately show False by simp
  next
    case swap
    have "x = x0" using site_inj [OF assms(2,3) _ _ swap(1)] r by simp
    moreover have "x + 1 = x0" using site_inj [OF assms(2,3,4,5) swap(2)] by simp
    ultimately show False by simp
  qed
qed

subsection \<open>One step of the construction\<close>

lemma quadratic_add_variable: "quadratic (add_variable v b) = quadratic b"
  by (simp add: add_variable_def)

lemma set_variables_add_variable: "set (variables (add_variable v b)) = insert v (set (variables b))"
  by (auto simp add: add_variable_def variables_def)

lemma distinct_variables_add_variable:
  "distinct (variables b) \<Longrightarrow> distinct (variables (add_variable v b))"
  by (auto simp add: add_variable_def variables_def)

lemma variables_quadratic_update: "variables (b\<lparr>quadratic := q\<rparr>) = variables b"
  by (simp add: variables_def)

lemma set_quadratic_Inr:
  assumes "set_quadratic u v bias b = Inr b'"
  shows "u \<noteq> v"
    and "get_quadratic b' a c = (if edge a c = edge u v then Some bias else get_quadratic b a c)"
    and "set (variables b') = insert u (insert v (set (variables b)))"
    and "distinct (variables b) \<Longrightarrow> distinct (variables b')"
proof -
  show ne: "u \<noteq> v"
    using assms by (auto simp add: set_quadratic_def split: if_splits)
  let ?b1 = "add_variable v (add_variable u b)"
  have b': "b' = ?b1\<lparr>quadratic := AList.update (edge u v) bias (quadratic ?b1)\<rparr>"
    using assms ne by (simp add: set_quadratic_def Let_def)
  show "get_quadratic b' a c = (if edge a c = edge u v then Some bias else get_quadratic b a c)"
    by (simp add: b' get_quadratic_def update_conv' quadratic_add_variable)
  show "set (variables b') = insert u (insert v (set (variables b)))"
    by (auto simp add: b' variables_quadratic_update set_variables_add_variable)
  show "distinct (variables b')" if "distinct (variables b)"
    using that by (simp add: b' variables_quadratic_update distinct_variables_add_variable)
qed

lemma set_quadratic_success: "u \<noteq> v \<Longrightarrow> \<exists>b'. set_quadratic u v bias b = Inr b'"
  by (simp add: set_quadratic_def Let_def)

lemma couple_site_success:
  assumes "2 \<le> L" "0 \<le> x" "0 \<le> y" "y < L"
  shows "\<exists>b'. couple_site L x y b = Inr b'"
proof -
  have h: "x * L + y \<noteq> x * L + (y + 1) mod L"
    using assms by (simp add: succ_mod)
  have v: "x * L + y \<noteq> (x + 1) * L + y"
    using assms by (simp add: algebra_simps)
  obtain b1 where b1: "(if (x + y) mod 2 \<noteq> 0
            then set_quadratic (x * L + y) (x * L + ((y + 1) mod L)) 1 b
            else set_quadratic (x * L + y) (x * L + ((y + 1) mod L)) (- 1) b) = Inr b1"
    using set_quadratic_success [OF h] by (metis (full_types))
  obtain b2 where "set_quadratic (x * L + y) ((x + 1) * L + y) 1 b1 = Inr b2"
    using set_quadratic_success [OF v] by blast
  then show ?thesis
    unfolding couple_site_def by (simp only: b1 sum.case split: if_splits) simp
qed

lemma couple_site_get:
  assumes "couple_site L x y b = Inr b'"
  shows "get_quadratic b' a c =
     (if x < L - 1 \<and> edge a c = edge (x * L + y) ((x + 1) * L + y) then Some 1
      else if edge a c = edge (x * L + y) (x * L + (y + 1) mod L)
           then Some (if (x + y) mod 2 \<noteq> 0 then 1 else - 1)
      else get_quadratic b a c)"
proof -
  obtain b1 where b1: "set_quadratic (x * L + y) (x * L + ((y + 1) mod L))
      (if (x + y) mod 2 \<noteq> 0 then 1 else - 1) b = Inr b1"
    and b2: "(if x < L - 1 then set_quadratic (x * L + y) ((x + 1) * L + y) 1 b1 else Inr b1) = Inr b'"
    using assms unfolding couple_site_def by (auto split: sum.splits if_splits)
  show ?thesis
  proof (cases "x < L - 1")
    case True
    with b2 have "set_quadratic (x * L + y) ((x + 1) * L + y) 1 b1 = Inr b'" by simp
    from set_quadratic_Inr(2) [OF this] set_quadratic_Inr(2) [OF b1] True
    show ?thesis by simp
  next
    case False
    with b2 have "b' = b1" by simp
    with set_quadratic_Inr(2) [OF b1] False show ?thesis by simp
  qed
qed

lemma couple_site_variables:
  assumes "couple_site L x y b = Inr b'"
  shows "set (variables b') =
           set (variables b) \<union> {x * L + y, x * L + (y + 1) mod L}
             \<union> (if x < L - 1 then {(x + 1) * L + y} else {})"
    and "distinct (variables b) \<Longrightarrow> distinct (variables b')"
proof -
  obtain b1 where b1: "set_quadratic (x * L + y) (x * L + ((y + 1) mod L))
      (if (x + y) mod 2 \<noteq> 0 then 1 else - 1) b = Inr b1"
    and b2: "(if x < L - 1 then set_quadratic (x * L + y) ((x + 1) * L + y) 1 b1 else Inr b1) = Inr b'"
    using assms unfolding couple_site_def by (auto split: sum.splits if_splits)
  show "set (variables b') =
           set (variables b) \<union> {x * L + y, x * L + (y + 1) mod L}
             \<union> (if x < L - 1 then {(x + 1) * L + y} else {})"
  proof (cases "x < L - 1")
    case True
    with b2 have "set_quadratic (x * L + y) ((x + 1) * L + y) 1 b1 = Inr b'" by simp
    from set_quadratic_Inr(3) [OF this] set_quadratic_Inr(3) [OF b1] True
    show ?thesis by auto
  next
    case False
    with b2 have "b' = b1" by simp
    with set_quadratic_Inr(3) [OF b1] False show ?thesis by auto
  qed
  show "distinct (variables b')" if "distinct (variables b)"
  proof (cases "x < L - 1")
    case True
    with b2 have "set_quadratic (x * L + y) ((x + 1) * L + y) 1 b1 = Inr b'" by simp
    from set_quadratic_Inr(4) [OF this] set_quadratic_Inr(4) [OF b1] that
    show ?thesis by simp
  next
    case False
    with b2 have "b' = b1" by simp
    with set_quadratic_Inr(4) [OF b1] that show ?thesis by simp
  qed
qed

lemma couple_site_establishes:
  assumes "0 < L" "0 \<le> y0" "y0 < L" and "couple_site L x0 y0 s = Inr s'"
  shows "get_quadratic s' (x0 * L + y0) (x0 * L + (y0 + 1) mod L)
           = Some (if (x0 + y0) mod 2 \<noteq> 0 then 1 else - 1)"
  using couple_site_get [OF assms(4)] keys_V_H [OF assms(1,2,3,2,3), of x0 x0]
  by simp

lemma couple_site_preserves:
  assumes "3 \<le> L" "0 \<le> y" "y < L" "0 \<le> y0" "y0 < L"
    and "get_quadratic s (x0 * L + y0) (x0 * L + (y0 + 1) mod L)
           = Some (if (x0 + y0) mod 2 \<noteq> 0 then 1 else - 1)"
    and "couple_site L x y s = Inr s'"
  shows "get_quadratic s' (x0 * L + y0) (x0 * L + (y0 + 1) mod L)
           = Some (if (x0 + y0) mod 2 \<noteq> 0 then 1 else - 1)"
proof -
  have L: "0 < L" using assms(1) by simp
  have v: "edge (x0 * L + y0) (x0 * L + (y0 + 1) mod L) \<noteq> edge (x * L + y) ((x + 1) * L + y)"
    using keys_V_H [OF L assms(2,3,4,5), of x x0] by simp
  show ?thesis
  proof (cases "edge (x0 * L + y0) (x0 * L + (y0 + 1) mod L)
                  = edge (x * L + y) (x * L + (y + 1) mod L)")
    case True
    then have "x = x0 \<and> y = y0"
      using keys_H_H [OF assms(1,2,3,4,5), of x x0] by simp
    then show ?thesis
      using couple_site_establishes [OF L assms(4,5), of x0 s s'] assms(7) by simp
  next
    case False
    with v show ?thesis
      using couple_site_get [OF assms(7), of "x0 * L + y0" "x0 * L + (y0 + 1) mod L"] assms(6)
      by simp
  qed
qed

subsection \<open>The whole construction\<close>

lemma couple_sites_weight:
  assumes "3 \<le> L" "0 \<le> x0" "x0 < L" "0 \<le> y0" "y0 < L"
    and "couple_sites L s = Inr s'"
  shows "get_quadratic s' (x0 * L + y0) (x0 * L + (y0 + 1) mod L)
           = Some (if (x0 + y0) mod 2 \<noteq> 0 then 1 else - 1)"
proof -
  let ?Q = "\<lambda>s. get_quadratic s (x0 * L + y0) (x0 * L + (y0 + 1) mod L)
           = Some (if (x0 + y0) mod 2 \<noteq> 0 then 1 else - 1)"
  have L: "0 < L" using assms(1) by simp
  have x0: "x0 \<in> set (range_py L)" and y0: "y0 \<in> set (range_py L)"
    using assms(2-5) by (simp_all add: set_range_py)
  have site: "?Q t'" if "y \<in> set (range_py L)" "?Q t" "couple_site L x y t = Inr t'" for x y t t'
    using that couple_site_preserves [OF assms(1) _ _ assms(4,5), of y t x0 x t']
    by (simp add: set_range_py)
  have row: "?Q t'" if "?Q t" "for_each (couple_site L x) (range_py L) t = Inr t'" for x t t'
    using that(2,1) by (rule for_each_invariant) (rule site)
  have row0: "?Q t'" if "for_each (couple_site L x0) (range_py L) t = Inr t'" for t t'
    using that y0
  proof (rule for_each_establish)
    fix u u'
    assume "couple_site L x0 y0 u = Inr u'"
    then show "?Q u'" by (rule couple_site_establishes [OF L assms(4,5)])
  next
    fix y u u'
    assume "y \<in> set (range_py L)" "?Q u" "couple_site L x0 y u = Inr u'"
    then show "?Q u'" by (rule site)
  qed
  from assms(6) have "for_each (\<lambda>x. for_each (couple_site L x) (range_py L)) (range_py L) s = Inr s'"
    by (simp add: couple_sites_def)
  then show ?thesis using x0
  proof (rule for_each_establish)
    fix t t'
    assume "for_each (couple_site L x0) (range_py L) t = Inr t'"
    then show "?Q t'" by (rule row0)
  next
    fix x t t'
    assume "x \<in> set (range_py L)" "?Q t" "for_each (couple_site L x) (range_py L) t = Inr t'"
    then show "?Q t'" using row by blast
  qed
qed

lemma couple_sites_success:
  assumes "L \<noteq> 1"
  shows "\<exists>s'. couple_sites L s = Inr s'"
proof (cases "L \<le> 0")
  case True
  then show ?thesis by (simp add: couple_sites_def range_py_def)
next
  case False
  with assms have L: "2 \<le> L" by simp
  have "\<exists>t'. for_each (couple_site L x) (range_py L) t = Inr t'"
    if "x \<in> set (range_py L)" for x t
  proof (rule for_each_success)
    fix y u
    assume "y \<in> set (range_py L)"
    then show "\<exists>u'. couple_site L x y u = Inr u'"
      using that couple_site_success [OF L, of x y u] by (simp add: set_range_py)
  qed
  then show ?thesis
    unfolding couple_sites_def by (rule for_each_success)
qed

lemma build_bqm_total: "L \<noteq> 1 \<Longrightarrow> \<exists>b. build_bqm L = Inr b"
  unfolding build_bqm_def by (rule couple_sites_success)

lemma build_bqm_weight:
  assumes "3 \<le> L" "0 \<le> x" "x < L" "0 \<le> y" "y < L" and "build_bqm L = Inr b"
  shows "get_quadratic b (x * L + y) (x * L + (y + 1) mod L)
           = Some (if (x + y) mod 2 \<noteq> 0 then 1 else - 1)"
  using assms(6) unfolding build_bqm_def by (rule couple_sites_weight [OF assms(1-5)])

lemma sites_eq: "sites L = int ` {0..<nat L * nat L}"
proof (cases "0 < L")
  case False
  then show ?thesis by (simp add: sites_def)
next
  case True
  have "sites L = {0..<L * L}"
  proof (rule set_eqI)
    fix n
    show "n \<in> sites L \<longleftrightarrow> n \<in> {0..<L * L}"
    proof
      assume "n \<in> sites L"
      then obtain x y where n: "n = x * L + y" and x: "0 \<le> x" "x < L" and y: "0 \<le> y" "y < L"
        by (auto simp add: sites_def)
      have "(x + 1) * L \<le> L * L" using x True by (simp add: mult_right_mono)
      then have "x * L + y < L * L" using y by (simp add: algebra_simps)
      moreover have "0 \<le> x * L + y" using x y True by simp
      ultimately show "n \<in> {0..<L * L}" using n by simp
    next
      assume n: "n \<in> {0..<L * L}"
      have "0 \<le> n div L" using n True by (simp add: pos_imp_zdiv_nonneg_iff)
      moreover have "n div L < L"
      proof (rule ccontr)
        assume "\<not> n div L < L"
        then have a: "L * L \<le> (n div L) * L" using True by (simp add: mult_right_mono)
        have b: "(n div L) * L + n mod L = n" by simp
        have c: "0 \<le> n mod L" using True by simp
        have d: "n < L * L" using n by simp
        from a b c d show False by linarith
      qed
      moreover have "0 \<le> n mod L" "n mod L < L" using True by simp_all
      moreover have "n = (n div L) * L + n mod L" by simp
      ultimately show "n \<in> sites L"
        unfolding sites_def by (metis (mono_tags, lifting) atLeastLessThan_iff case_prod_conv image_eqI mem_Sigma_iff)
    qed
  qed
  moreover have "int ` {0..<nat L * nat L} = {0..<L * L}"
    using True by (simp add: image_int_atLeastLessThan nat_mult_distrib [symmetric])
  ultimately show ?thesis by simp
qed

lemma fold_add_variable:
  "set (variables (fold (\<lambda>y. add_variable (f y)) ys b)) = set (variables b) \<union> f ` set ys"
  "distinct (variables b) \<Longrightarrow> distinct (variables (fold (\<lambda>y. add_variable (f y)) ys b))"
  by (induction ys arbitrary: b)
    (auto simp add: set_variables_add_variable distinct_variables_add_variable)

lemma fold_fold_add_variable:
  "set (variables (fold (\<lambda>x. fold (\<lambda>y. add_variable (f x y)) ys) xs b))
     = set (variables b) \<union> (\<lambda>(x, y). f x y) ` (set xs \<times> set ys)"
  "distinct (variables b)
     \<Longrightarrow> distinct (variables (fold (\<lambda>x. fold (\<lambda>y. add_variable (f x y)) ys) xs b))"
  by (induction xs arbitrary: b) (auto simp add: fold_add_variable)

lemma add_sites_variables:
  "set (variables (add_sites L empty_bqm)) = sites L"
  "distinct (variables (add_sites L empty_bqm))"
proof -
  have e: "variables empty_bqm = []"
    by (simp add: empty_bqm_def variables_def)
  show "set (variables (add_sites L empty_bqm)) = sites L"
    by (simp add: add_sites_def fold_fold_add_variable(1) sites_def set_range_py e)
  show "distinct (variables (add_sites L empty_bqm))"
    unfolding add_sites_def by (rule fold_fold_add_variable(2)) (simp add: e)
qed

lemma site_in_sites: "0 \<le> x \<Longrightarrow> x < L \<Longrightarrow> 0 \<le> y \<Longrightarrow> y < L \<Longrightarrow> x * L + y \<in> sites L"
  by (auto simp add: sites_def)

lemma couple_site_keeps_sites:
  assumes "0 \<le> x" "x < L" "0 \<le> y" "y < L"
    and "set (variables s) = sites L \<and> distinct (variables s)"
    and "couple_site L x y s = Inr s'"
  shows "set (variables s') = sites L \<and> distinct (variables s')"
proof -
  have L: "0 < L" using assms(3,4) by simp
  have a: "x * L + y \<in> sites L"
    using assms(1-4) by (rule site_in_sites)
  have b: "x * L + (y + 1) mod L \<in> sites L"
    using assms(1,2) mod_in_range [OF L, of y] by (simp add: site_in_sites)
  have c: "(x + 1) * L + y \<in> sites L" if "x < L - 1"
    using that assms(1,3,4) by (simp add: site_in_sites)
  show ?thesis
    using couple_site_variables [OF assms(6)] assms(5) a b c by auto
qed

lemma couple_sites_keeps_sites:
  assumes "set (variables s) = sites L \<and> distinct (variables s)"
    and "couple_sites L s = Inr s'"
  shows "set (variables s') = sites L \<and> distinct (variables s')"
proof -
  let ?I = "\<lambda>s. set (variables s) = sites L \<and> distinct (variables s)"
  have row: "?I t'" if "x \<in> set (range_py L)" "?I t"
    "for_each (couple_site L x) (range_py L) t = Inr t'" for x t t'
    using that(3,2)
  proof (rule for_each_invariant)
    fix y u u'
    assume "y \<in> set (range_py L)" "?I u" "couple_site L x y u = Inr u'"
    then show "?I u'"
      using that(1) couple_site_keeps_sites [of x L y u u'] by (simp add: set_range_py)
  qed
  from assms(2) have "for_each (\<lambda>x. for_each (couple_site L x) (range_py L)) (range_py L) s = Inr s'"
    by (simp add: couple_sites_def)
  then show ?thesis using assms(1)
    by (rule for_each_invariant) (rule row)
qed

lemma build_bqm_variables:
  assumes "build_bqm L = Inr b"
  shows "set (variables b) = sites L" and "distinct (variables b)"
  using couple_sites_keeps_sites [of "add_sites L empty_bqm" L b] assms add_sites_variables [of L]
  by (simp_all add: build_bqm_def)

lemma build_bqm_node_order:
  assumes "build_bqm L = Inr b"
  shows "node_order (to_networkx_graph b) = map int [0..<nat L * nat L]"
proof -
  have n: "nodes (to_networkx_graph b) = variables b"
    by (simp add: nodes_def to_networkx_graph_def variables_def)
  have s: "sorted (map int [0..<nat L * nat L])"
    by (simp add: sorted_map)
  have d: "distinct (map int [0..<nat L * nat L])"
    by (simp add: distinct_map)
  have "set (sort (variables b)) = set (map int [0..<nat L * nat L])"
    using build_bqm_variables(1) [OF assms] by (simp add: sites_eq)
  moreover have "distinct (sort (variables b))"
    using build_bqm_variables(2) [OF assms] by simp
  ultimately have "sort (variables b) = map int [0..<nat L * nat L]"
    using s d by (simp add: sorted_distinct_set_unique)
  then show ?thesis by (simp add: node_order_def n)
qed

subsection \<open>The text of a size\<close>

lemma digit_cases: "d < 10 \<Longrightarrow> d = 0 \<or> d = 1 \<or> d = 2 \<or> d = 3 \<or> d = 4 \<or> d = 5 \<or> d = 6 \<or> d = 7 \<or> d = 8 \<or> d = (9::nat)"
  by arith

lemma of_char_digit_char: "d < 10 \<Longrightarrow> (of_char (digit_char d) :: nat) = 48 + d"
  using digit_cases [of d] by (auto simp add: digit_char_def)

lemma digit_char_in: "d < 10 \<Longrightarrow> digit_char d \<in> set ''0123456789''"
  unfolding digit_char_def by (rule nth_mem) simp

lemma set_dec: "set (dec n) \<subseteq> set ''0123456789''"
proof (induction n rule: dec.induct)
  case (1 n)
  show ?case
  proof (cases "n < 10")
    case True
    then show ?thesis using digit_char_in [of n] by (simp add: dec.simps [of n])
  next
    case False
    have "n mod 10 < 10" by simp
    then have "digit_char (n mod 10) \<in> set ''0123456789''" by (rule digit_char_in)
    with False 1 show ?thesis by (simp add: dec.simps [of n])
  qed
qed

lemma dec_nonempty: "dec n \<noteq> []"
  by (subst dec.simps) simp

lemma length_dec_small: "n < 10 \<Longrightarrow> dec n = [digit_char n]"
  by (subst dec.simps) simp

lemma length_dec_large: "10 \<le> n \<Longrightarrow> 2 \<le> length (dec n)"
proof -
  assume "10 \<le> n"
  then have "dec n = dec (n div 10) @ [digit_char (n mod 10)]"
    by (subst dec.simps) simp
  moreover have "1 \<le> length (dec (n div 10))"
    using dec_nonempty [of "n div 10"] by (cases "dec (n div 10)") simp_all
  ultimately show ?thesis by simp
qed

lemma digits_value_snoc: "digits_value (s @ [c]) = 10 * digits_value s + (of_char c - 48)"
  by (simp add: digits_value_def)

lemma digits_value_dec: "digits_value (dec n) = n"
proof (induction n rule: dec.induct)
  case (1 n)
  show ?case
  proof (cases "n < 10")
    case True
    then show ?thesis
      by (simp add: length_dec_small digits_value_def of_char_digit_char)
  next
    case False
    then have "dec n = dec (n div 10) @ [digit_char (n mod 10)]"
      by (subst dec.simps) simp
    with False 1 show ?thesis
      by (simp add: digits_value_snoc of_char_digit_char)
  qed
qed

lemma digits_value_zeros: "digits_value (replicate k (CHR ''0'') @ s) = digits_value s"
proof -
  have "foldl (\<lambda>a c. 10 * a + (of_char c - 48)) 0 (replicate k (CHR ''0'')) = (0::nat)"
    by (induction k) simp_all
  then show ?thesis by (simp add: digits_value_def)
qed

lemma minus_not_digit: "CHR ''-'' \<notin> set (replicate k (CHR ''0'') @ dec n)"
  using set_dec [of n] by auto

lemma decode_format_0d: "decode_0d (format_0d width n) = n"
proof (cases "n < 0")
  case True
  then show ?thesis
    by (simp add: format_0d_def Let_def decode_0d_def digits_value_zeros digits_value_dec)
next
  case False
  let ?s = "replicate (width - length (dec (nat \<bar>n\<bar>))) (CHR ''0'') @ dec (nat \<bar>n\<bar>)"
  from False have f: "format_0d width n = ?s"
    by (simp add: format_0d_def Let_def)
  have ne: "?s \<noteq> []" using dec_nonempty by simp
  then obtain c cs where s: "?s = c # cs" by (cases ?s) auto
  have "c \<in> set ?s" by (simp only: s list.set_intros)
  then have "c \<noteq> CHR ''-''" using minus_not_digit [of "width - length (dec (nat \<bar>n\<bar>))" "nat \<bar>n\<bar>"] by metis
  then have "decode_0d ?s = int (digits_value ?s)"
    by (simp add: decode_0d_def s)
  with False show ?thesis
    by (simp add: f digits_value_zeros digits_value_dec)
qed

lemma format_0d_inj: "format_0d width m = format_0d width n \<Longrightarrow> m = n"
  by (metis decode_format_0d)

lemma set_format_0d: "set (format_0d width n) \<subseteq> set ''-0123456789''"
  using set_dec [of "nat \<bar>n\<bar>"] by (auto simp add: format_0d_def Let_def)

lemma format_0d_2:
  "format_0d 2 n = (if n < 0 then CHR ''-'' # dec (nat (- n))
                    else if n < 10 then [CHR ''0'', digit_char (nat n)]
                    else dec (nat n))"
proof -
  have "n < 0 \<Longrightarrow> 1 \<le> length (dec (nat (- n)))"
    using dec_nonempty [of "nat (- n)"] by (cases "dec (nat (- n))") simp_all
  moreover have "10 \<le> n \<Longrightarrow> 2 \<le> length (dec (nat n))"
    by (rule length_dec_large) simp
  ultimately show ?thesis
    by (auto simp add: format_0d_def Let_def length_dec_small)
qed

lemma split_at_last:
  assumes "xs @ c # ds = ys @ c # es" and "c \<notin> set ds" and "c \<notin> set es"
  shows "xs = ys \<and> ds = es"
  using assms
proof (induction xs arbitrary: ys)
  case Nil
  then show ?case by (cases ys) auto
next
  case (Cons x xs)
  then show ?case by (cases ys) auto
qed

lemma cache_filename_inj:
  assumes "cache_filename n1 L1 = cache_filename n2 L2"
  shows "n1 = n2 \<and> L1 = L2"
proof -
  let ?S = "''_square_embeddings_cached.txt''"
  have a: "CHR ''L'' \<notin> set (format_0d 2 L1 @ ?S)"
    using set_format_0d [of 2 L1] by auto
  have b: "CHR ''L'' \<notin> set (format_0d 2 L2 @ ?S)"
    using set_format_0d [of 2 L2] by auto
  have "(''cached_embeddings/'' @ n1 @ ''__'') @ CHR ''L'' # (format_0d 2 L1 @ ?S)
      = (''cached_embeddings/'' @ n2 @ ''__'') @ CHR ''L'' # (format_0d 2 L2 @ ?S)"
    using assms by (simp add: cache_filename_def)
  from split_at_last [OF this a b]
  have "n1 = n2" and "format_0d 2 L1 = format_0d 2 L2" by simp_all
  then show ?thesis using format_0d_inj by blast
qed

subsection \<open>The steps of a call\<close>

lemma fault_log_event: "fault (log_event ev w) = fault w"
  by (simp add: log_event_def)

lemma only_touches_refl: "only_touches path w w"
  by (simp add: only_touches_def)

lemma only_touches_trans:
  assumes "only_touches path w w1" and "only_touches path w1 w2"
  shows "only_touches path w w2"
proof -
  from assms(1) obtain evs where 1: "trace w1 = trace w @ evs"
    "set evs \<subseteq> {Loadtxt path, Savetxt path, Makedirs ''cached_embeddings/'',
                  LowerBound, Search 10 6} \<union> range ToNdarray"
    "\<forall>q. q \<noteq> path \<longrightarrow> files w1 q = files w q" "fault w1 = fault w"
    unfolding only_touches_def by blast
  from assms(2) obtain evs' where 2: "trace w2 = trace w1 @ evs'"
    "set evs' \<subseteq> {Loadtxt path, Savetxt path, Makedirs ''cached_embeddings/'',
                  LowerBound, Search 10 6} \<union> range ToNdarray"
    "\<forall>q. q \<noteq> path \<longrightarrow> files w2 q = files w1 q" "fault w2 = fault w1"
    unfolding only_touches_def by blast
  have "trace w2 = trace w @ (evs @ evs')" using 1(1) 2(1) by simp
  moreover have "set (evs @ evs') \<subseteq> {Loadtxt path, Savetxt path, Makedirs ''cached_embeddings/'',
                  LowerBound, Search 10 6} \<union> range ToNdarray"
    using 1(2) 2(2) by simp
  ultimately show ?thesis
    unfolding only_touches_def using 1(3,4) 2(3,4) by (metis (no_types, lifting))
qed

lemma only_touches_log_event:
  assumes "ev \<in> {Loadtxt path, Savetxt path, Makedirs ''cached_embeddings/'',
                  LowerBound, Search 10 6} \<union> range ToNdarray"
  shows "only_touches path w (log_event ev w)"
  unfolding only_touches_def using assms by (simp add: log_event_def)

lemma snd_np_loadtxt: "snd (np_loadtxt ext path w) = log_event (Loadtxt path) w"
  by (simp add: np_loadtxt_def split: option.splits)

lemma os_makedirs_ok:
  assumes "fault w (Makedirs path) = None" and "files w (strip_slash path) = None"
  shows "os_makedirs path w
           = (Inr (), w\<lparr>dirs := insert path (dirs w), trace := trace w @ [Makedirs path]\<rparr>)"
  using assms by (simp add: os_makedirs_def Let_def log_event_def)


lemma np_savetxt_ok:
  assumes "fault w (Savetxt path) = None" and "parent_dir path \<in> dirs w"
  shows "np_savetxt ext path a w
           = (Inr (), w\<lparr>files := (files w)(path \<mapsto> format_int_matrix ext a),
                        trace := trace w @ [Savetxt path]\<rparr>)"
  using assms by (simp add: np_savetxt_def Let_def log_event_def)

lemma os_makedirs_cases:
  "os_makedirs path w = (Inr (), w\<lparr>dirs := insert path (dirs w), trace := trace w @ [Makedirs path]\<rparr>)
   \<or> (\<exists>e. os_makedirs path w = (Inl e, w\<lparr>trace := trace w @ [Makedirs path]\<rparr>))"
  by (simp add: os_makedirs_def Let_def log_event_def split: option.splits)

lemma np_savetxt_cases:
  "np_savetxt ext path a w
     = (Inr (), w\<lparr>files := (files w)(path \<mapsto> format_int_matrix ext a),
                  trace := trace w @ [Savetxt path]\<rparr>)
   \<or> (\<exists>e. np_savetxt ext path a w = (Inl e, w\<lparr>trace := trace w @ [Savetxt path]\<rparr>))"
  by (simp add: np_savetxt_def Let_def log_event_def split: option.splits)

lemma only_touches_makedirs:
  "only_touches path w (snd (os_makedirs ''cached_embeddings/'' w))"
  using os_makedirs_cases [of "''cached_embeddings/''" w]
  by (auto simp add: only_touches_def)

lemma only_touches_savetxt: "only_touches path w (snd (np_savetxt ext path a w))"
  using np_savetxt_cases [of ext path a w]
  by (auto simp add: only_touches_def)

lemma find_embeddings_cases:
  "(\<exists>e. find_embeddings ext G A w = (Inl e, w\<lparr>trace := trace w @ [LowerBound]\<rparr>)
        \<and> raster_breadth_subgraph_lower_bound ext G A = Inl e)
   \<or> (\<exists>lb e. find_embeddings ext G A w = (Inl e, w\<lparr>trace := trace w @ [LowerBound, Search 10 6]\<rparr>)
        \<and> raster_breadth_subgraph_lower_bound ext G A = Inr lb
        \<and> raster_embedding_search ext G A 10 6 = Inl e)
   \<or> (\<exists>lb found. find_embeddings ext G A w
          = (embeddings_to_ndarray ext found (node_order G),
             w\<lparr>trace := trace w @ [LowerBound, Search 10 6, ToNdarray (node_order G)]\<rparr>)
        \<and> raster_breadth_subgraph_lower_bound ext G A = Inr lb
        \<and> raster_embedding_search ext G A 10 6 = Inr found)"
  by (cases "raster_breadth_subgraph_lower_bound ext G A";
      cases "raster_embedding_search ext G A 10 6")
    (simp_all add: find_embeddings_def Let_def log_event_def)

lemma only_touches_find: "only_touches path w (snd (find_embeddings ext G A w))"
  using find_embeddings_cases [of ext G A w]
  by (auto simp add: only_touches_def)

lemma store_and_return_cases:
  "store_and_return ext path embeddings b w
     = (case os_makedirs ''cached_embeddings/'' w of
          (Inl e, w1) \<Rightarrow> (Inl e, w1)
        | (Inr made, w1) \<Rightarrow>
            (case embeddings of
               None \<Rightarrow> (Inl UnboundLocalError, w1)
             | Some a \<Rightarrow>
                 (case np_savetxt ext path a w1 of
                    (Inl e, w2) \<Rightarrow> (Inl e, w2)
                  | (Inr saved, w2) \<Rightarrow> (Inr (a, b), w2))))"
  by (simp add: store_and_return_def)

lemma only_touches_store:
  "only_touches path w (snd (store_and_return ext path embeddings b w))"
proof -
  obtain r1 w1 where m: "os_makedirs ''cached_embeddings/'' w = (r1, w1)"
    by (cases "os_makedirs ''cached_embeddings/'' w")
  have t1: "only_touches path w w1"
    using only_touches_makedirs [of path w] m by simp
  show ?thesis
  proof (cases r1)
    case (Inl e)
    then show ?thesis using t1 m by (simp add: store_and_return_def)
  next
    case (Inr made)
    show ?thesis
    proof (cases embeddings)
      case None
      then show ?thesis using t1 m Inr by (simp add: store_and_return_def)
    next
      case (Some a)
      obtain r2 w2 where s: "np_savetxt ext path a w1 = (r2, w2)"
        by (cases "np_savetxt ext path a w1")
      have "only_touches path w1 w2"
        using only_touches_savetxt [of path w1 ext a] s by simp
      with t1 have "only_touches path w w2" by (rule only_touches_trans)
      then show ?thesis
        using m Inr Some s by (cases r2) (simp_all add: store_and_return_def)
    qed
  qed
qed

lemma store_and_return_ok:
  assumes "fault w (Makedirs ''cached_embeddings/'') = None"
    and "files w ''cached_embeddings'' = None"
    and "fault w (Savetxt path) = None"
    and "parent_dir path \<in> insert ''cached_embeddings/'' (dirs w)"
  shows "store_and_return ext path (Some a) b w
           = (Inr (a, b),
              w\<lparr>files := (files w)(path \<mapsto> format_int_matrix ext a),
                dirs := insert ''cached_embeddings/'' (dirs w),
                trace := trace w @ [Makedirs ''cached_embeddings/'', Savetxt path]\<rparr>)"
proof -
  have s: "strip_slash ''cached_embeddings/'' = ''cached_embeddings''"
    by (simp add: strip_slash_def)
  let ?w1 = "w\<lparr>dirs := insert ''cached_embeddings/'' (dirs w),
                trace := trace w @ [Makedirs ''cached_embeddings/'']\<rparr>"
  have m: "os_makedirs ''cached_embeddings/'' w = (Inr (), ?w1)"
    using assms(1,2) by (simp add: os_makedirs_ok s)
  have "np_savetxt ext path a ?w1
          = (Inr (), ?w1\<lparr>files := (files ?w1)(path \<mapsto> format_int_matrix ext a),
                        trace := trace ?w1 @ [Savetxt path]\<rparr>)"
    by (rule np_savetxt_ok) (use assms(3,4) in simp_all)
  with m show ?thesis
    by (simp add: store_and_return_def)
qed


lemma store_and_return_Inr:
  assumes "fst (store_and_return ext path embeddings b w) = Inr (a, b')"
  shows "embeddings = Some a \<and> b' = b
     \<and> snd (store_and_return ext path embeddings b w)
         = w\<lparr>files := (files w)(path \<mapsto> format_int_matrix ext a),
             dirs := insert ''cached_embeddings/'' (dirs w),
             trace := trace w @ [Makedirs ''cached_embeddings/'', Savetxt path]\<rparr>"
proof -
  let ?w1 = "w\<lparr>dirs := insert ''cached_embeddings/'' (dirs w),
                trace := trace w @ [Makedirs ''cached_embeddings/'']\<rparr>"
  have m: "os_makedirs ''cached_embeddings/'' w = (Inr (), ?w1)"
    using os_makedirs_cases [of "''cached_embeddings/''" w] assms
    by (auto simp add: store_and_return_def)
  obtain a' where e: "embeddings = Some a'"
    using assms m by (cases embeddings) (simp_all add: store_and_return_def)
  have s: "np_savetxt ext path a' ?w1
     = (Inr (), ?w1\<lparr>files := (files ?w1)(path \<mapsto> format_int_matrix ext a'),
                  trace := trace ?w1 @ [Savetxt path]\<rparr>)"
    using np_savetxt_cases [of ext path a' ?w1] assms m e
    by (auto simp add: store_and_return_def)
  have r: "store_and_return ext path embeddings b w
     = (Inr (a', b), ?w1\<lparr>files := (files ?w1)(path \<mapsto> format_int_matrix ext a'),
                  trace := trace ?w1 @ [Savetxt path]\<rparr>)"
    by (simp add: store_and_return_def m e s)
  have "a' = a" "b' = b"
    using assms unfolding r by simp_all
  then show ?thesis
    using e unfolding r by simp
qed

subsection \<open>The ways through the function\<close>

lemma embed_build_fails:
  assumes "build_bqm L = Inl e"
  shows "embed_square_lattice ext sampler L t kwargs w = (Inl e, w)"
  using assms by (simp add: embed_square_lattice_def)

lemma embed_no_chip:
  assumes "build_bqm L = Inr b" and "properties sampler ''chip_id'' = None"
  shows "embed_square_lattice ext sampler L t kwargs w = (Inl KeyError, w)"
  using assms by (simp add: embed_square_lattice_def Let_def)

lemma embed_no_load:
  assumes "build_bqm L = Inr b" and "properties sampler ''chip_id'' = Some solver_name"
  shows "embed_square_lattice ext sampler L False kwargs w =
           store_and_return ext (cache_filename solver_name L) None b w"
  using assms by (simp add: embed_square_lattice_def Let_def)

lemma embed_with_load:
  assumes "build_bqm L = Inr b" and "properties sampler ''chip_id'' = Some solver_name"
  shows "embed_square_lattice ext sampler L True kwargs w =
     (case np_loadtxt ext (cache_filename solver_name L) w of
        (Inr a, w1) \<Rightarrow> (Inr (a, b), w1)
      | (Inl e, w1) \<Rightarrow>
          if e = ValueError \<or> e = FileNotFoundError then
            (case find_embeddings ext (to_networkx_graph b) (sampler_graph sampler) w1 of
               (Inl e', w2) \<Rightarrow> (Inl e', w2)
             | (Inr a, w2) \<Rightarrow>
                 store_and_return ext (cache_filename solver_name L) (Some a) b w2)
          else (Inl e, w1))"
  using assms by (simp add: embed_square_lattice_def Let_def)

lemma embed_hit:
  assumes "build_bqm L = Inr b" and "properties sampler ''chip_id'' = Some solver_name"
    and "files w (cache_filename solver_name L) = Some text"
    and "parse_int_matrix ext text = Inr a"
  shows "embed_square_lattice ext sampler L True kwargs w =
           (Inr (a, b), log_event (Loadtxt (cache_filename solver_name L)) w)"
  using assms by (simp add: embed_square_lattice_def np_loadtxt_def Let_def)

lemma embed_miss:
  assumes "build_bqm L = Inr b" and "properties sampler ''chip_id'' = Some solver_name"
    and "fst (np_loadtxt ext (cache_filename solver_name L) w) = Inl e"
    and "e = ValueError \<or> e = FileNotFoundError"
  shows "embed_square_lattice ext sampler L True kwargs w =
           (case find_embeddings ext (to_networkx_graph b) (sampler_graph sampler)
                   (log_event (Loadtxt (cache_filename solver_name L)) w) of
              (Inl e', w2) \<Rightarrow> (Inl e', w2)
            | (Inr a, w2) \<Rightarrow>
                store_and_return ext (cache_filename solver_name L) (Some a) b w2)"
proof -
  have "np_loadtxt ext (cache_filename solver_name L) w
          = (Inl e, log_event (Loadtxt (cache_filename solver_name L)) w)"
    using assms(3) snd_np_loadtxt [of ext "cache_filename solver_name L" w]
    by (cases "np_loadtxt ext (cache_filename solver_name L) w") simp
  then show ?thesis
    using assms(4) by (simp add: embed_with_load [OF assms(1,2)])
qed

lemma embed_load_raises:
  assumes "build_bqm L = Inr b" and "properties sampler ''chip_id'' = Some solver_name"
    and "fst (np_loadtxt ext (cache_filename solver_name L) w) = Inl e"
    and "e \<noteq> ValueError" and "e \<noteq> FileNotFoundError"
  shows "embed_square_lattice ext sampler L True kwargs w =
           (Inl e, log_event (Loadtxt (cache_filename solver_name L)) w)"
proof -
  have "np_loadtxt ext (cache_filename solver_name L) w
          = (Inl e, log_event (Loadtxt (cache_filename solver_name L)) w)"
    using assms(3) snd_np_loadtxt [of ext "cache_filename solver_name L" w]
    by (cases "np_loadtxt ext (cache_filename solver_name L) w") simp
  then show ?thesis
    using assms(4,5) by (simp add: embed_with_load [OF assms(1,2)])
qed

lemma embed_load_returns:
  assumes "build_bqm L = Inr b" and "properties sampler ''chip_id'' = Some solver_name"
    and "fst (np_loadtxt ext (cache_filename solver_name L) w) = Inr a"
  shows "embed_square_lattice ext sampler L True kwargs w =
           (Inr (a, b), log_event (Loadtxt (cache_filename solver_name L)) w)"
proof -
  have "np_loadtxt ext (cache_filename solver_name L) w
          = (Inr a, log_event (Loadtxt (cache_filename solver_name L)) w)"
    using assms(3) snd_np_loadtxt [of ext "cache_filename solver_name L" w]
    by (cases "np_loadtxt ext (cache_filename solver_name L) w") simp
  then show ?thesis
    by (simp add: embed_with_load [OF assms(1,2)])
qed

lemma find_embeddings_ok:
  assumes "raster_breadth_subgraph_lower_bound ext G A = Inr lb"
    and "raster_embedding_search ext G A 10 6 = Inr found"
  shows "find_embeddings ext G A w =
           (embeddings_to_ndarray ext found (node_order G),
            w\<lparr>trace := trace w @ [LowerBound, Search 10 6, ToNdarray (node_order G)]\<rparr>)"
  using assms by (simp add: find_embeddings_def Let_def log_event_def)

lemma find_embeddings_search_fails:
  assumes "raster_breadth_subgraph_lower_bound ext G A = Inr lb"
    and "raster_embedding_search ext G A 10 6 = Inl e"
  shows "find_embeddings ext G A w = (Inl e, w\<lparr>trace := trace w @ [LowerBound, Search 10 6]\<rparr>)"
  using assms by (simp add: find_embeddings_def Let_def log_event_def)

lemma load_fails_cases:
  assumes "files w path = None
           \<or> (\<exists>text. files w path = Some text \<and> parse_int_matrix ext text = Inl ValueError)"
  shows "\<exists>e. fst (np_loadtxt ext path w) = Inl e \<and> (e = ValueError \<or> e = FileNotFoundError)"
  using assms by (auto simp add: np_loadtxt_def)



subsection \<open>What a call touches\<close>

lemma only_touches_embed:
  assumes "properties sampler ''chip_id'' = Some solver_name"
  shows "only_touches (cache_filename solver_name L) w
           (snd (embed_square_lattice ext sampler L t kwargs w))"
proof (cases "build_bqm L")
  case (Inl e)
  then show ?thesis by (simp add: embed_build_fails only_touches_refl)
next
  case (Inr b)
  let ?p = "cache_filename solver_name L"
  let ?w1 = "log_event (Loadtxt ?p) w"
  have t1: "only_touches ?p w ?w1"
    by (rule only_touches_log_event) simp
  show ?thesis
  proof (cases t)
    case False
    then show ?thesis
      by (simp add: embed_no_load [OF Inr assms] only_touches_store)
  next
    case True
    show ?thesis
    proof (cases "fst (np_loadtxt ext ?p w)")
      case (Inr a)
      then show ?thesis
        using t1 by (simp add: True embed_load_returns [OF \<open>build_bqm L = Inr b\<close> assms Inr])
    next
      case (Inl e)
      show ?thesis
      proof (cases "e = ValueError \<or> e = FileNotFoundError")
        case False
        then have "e \<noteq> ValueError" "e \<noteq> FileNotFoundError" by simp_all
        then show ?thesis
          using t1 by (simp add: True embed_load_raises [OF \<open>build_bqm L = Inr b\<close> assms Inl])
      next
        case c: True
        obtain r2 w2 where f: "find_embeddings ext (to_networkx_graph b) (sampler_graph sampler) ?w1
                                 = (r2, w2)"
          by (cases "find_embeddings ext (to_networkx_graph b) (sampler_graph sampler) ?w1")
        have "only_touches ?p ?w1 w2"
          using only_touches_find [of ?p ?w1 ext "to_networkx_graph b" "sampler_graph sampler"] f
          by simp
        with t1 have t2: "only_touches ?p w w2" by (rule only_touches_trans)
        show ?thesis
        proof (cases r2)
          case (Inl e')
          then show ?thesis
            using t2 f by (simp add: True embed_miss [OF \<open>build_bqm L = Inr b\<close> assms \<open>fst (np_loadtxt ext ?p w) = Inl e\<close> c])
        next
          case (Inr a)
          have "only_touches ?p w2 (snd (store_and_return ext ?p (Some a) b w2))"
            by (rule only_touches_store)
          with t2 have "only_touches ?p w (snd (store_and_return ext ?p (Some a) b w2))"
            by (rule only_touches_trans)
          then show ?thesis
            using f Inr by (simp add: True embed_miss [OF \<open>build_bqm L = Inr b\<close> assms \<open>fst (np_loadtxt ext ?p w) = Inl e\<close> c])
        qed
      qed
    qed
  qed
qed

lemma embed_footprint:
  assumes "properties sampler ''chip_id'' = Some solver_name"
  shows "set (new_events w (snd (embed_square_lattice ext sampler L t kwargs w)))
           \<subseteq> {Loadtxt (cache_filename solver_name L), Savetxt (cache_filename solver_name L),
               Makedirs ''cached_embeddings/'', LowerBound, Search 10 6}
             \<union> range ToNdarray"
  using only_touches_embed [OF assms, of L w ext t kwargs]
  unfolding only_touches_def new_events_def by auto

lemma embed_files_frame:
  assumes "properties sampler ''chip_id'' = Some solver_name"
    and "path \<noteq> cache_filename solver_name L"
  shows "files (snd (embed_square_lattice ext sampler L t kwargs w)) path = files w path"
  using only_touches_embed [OF assms(1), of L w ext t kwargs] assms(2)
  unfolding only_touches_def by blast

lemma embed_search_events:
  assumes "Search timeout breadth
             \<in> set (new_events w (snd (embed_square_lattice ext sampler L t kwargs w)))"
  shows "timeout = 10 \<and> breadth = 6"
proof (cases "properties sampler ''chip_id''")
  case None
  have "snd (embed_square_lattice ext sampler L t kwargs w) = w"
    using None by (cases "build_bqm L") (simp_all add: embed_build_fails embed_no_chip)
  then show ?thesis using assms by (simp add: new_events_def)
next
  case (Some solver_name)
  from embed_footprint [OF Some, of w ext L t kwargs] assms show ?thesis by auto
qed

lemma embed_kwargs:
  "embed_square_lattice ext sampler L t kwargs w = embed_square_lattice ext sampler L t kwargs' w"
  by (simp add: embed_square_lattice_def)

lemma store_and_return_unbound:
  "isl (fst (store_and_return ext path None b w))"
  "files (snd (store_and_return ext path None b w)) = files w"
  "set (new_events w (snd (store_and_return ext path None b w)))
     \<subseteq> {Makedirs ''cached_embeddings/''}"
  using os_makedirs_cases [of "''cached_embeddings/''" w]
  by (auto simp add: store_and_return_def new_events_def)

lemma embed_no_load_facts:
  "isl (fst (embed_square_lattice ext sampler L False kwargs w))"
  "files (snd (embed_square_lattice ext sampler L False kwargs w)) = files w"
  "set (new_events w (snd (embed_square_lattice ext sampler L False kwargs w)))
     \<subseteq> {Makedirs ''cached_embeddings/''}"
proof -
  consider (a) e where "build_bqm L = Inl e"
    | (b) b where "build_bqm L = Inr b" "properties sampler ''chip_id'' = None"
    | (c) b solver_name where "build_bqm L = Inr b"
        "properties sampler ''chip_id'' = Some solver_name"
    by (cases "build_bqm L"; cases "properties sampler ''chip_id''") auto
  then have "isl (fst (embed_square_lattice ext sampler L False kwargs w))
    \<and> files (snd (embed_square_lattice ext sampler L False kwargs w)) = files w
    \<and> set (new_events w (snd (embed_square_lattice ext sampler L False kwargs w)))
     \<subseteq> {Makedirs ''cached_embeddings/''}"
  proof cases
    case a
    then show ?thesis by (simp add: embed_build_fails new_events_def)
  next
    case b
    then show ?thesis by (simp add: embed_no_chip new_events_def)
  next
    case c
    then show ?thesis by (simp add: embed_no_load store_and_return_unbound)
  qed
  then show "isl (fst (embed_square_lattice ext sampler L False kwargs w))"
    "files (snd (embed_square_lattice ext sampler L False kwargs w)) = files w"
    "set (new_events w (snd (embed_square_lattice ext sampler L False kwargs w)))
     \<subseteq> {Makedirs ''cached_embeddings/''}"
    by simp_all
qed

subsection \<open>What a successful call returns\<close>

text \<open>A call that returns a table has either read it or searched for it and stored it.\<close>

lemma embed_returns:
  assumes "fst (embed_square_lattice ext sampler L t kwargs w) = Inr (a, b)"
  obtains (read) solver_name where
      "build_bqm L = Inr b" "properties sampler ''chip_id'' = Some solver_name"
      "t" "fst (np_loadtxt ext (cache_filename solver_name L) w) = Inr a"
      "snd (embed_square_lattice ext sampler L t kwargs w)
         = log_event (Loadtxt (cache_filename solver_name L)) w"
  | (searched) solver_name found where
      "build_bqm L = Inr b" "properties sampler ''chip_id'' = Some solver_name"
      "t"
      "raster_embedding_search ext (to_networkx_graph b) (sampler_graph sampler) 10 6 = Inr found"
      "embeddings_to_ndarray ext found (node_order (to_networkx_graph b)) = Inr a"
      "snd (embed_square_lattice ext sampler L t kwargs w)
         = w\<lparr>files := (files w)(cache_filename solver_name L \<mapsto> format_int_matrix ext a),
             dirs := insert ''cached_embeddings/'' (dirs w),
             trace := trace w @ [Loadtxt (cache_filename solver_name L), LowerBound, Search 10 6,
               ToNdarray (node_order (to_networkx_graph b)), Makedirs ''cached_embeddings/'',
               Savetxt (cache_filename solver_name L)]\<rparr>"
proof -
  obtain b0 where b0: "build_bqm L = Inr b0"
    using assms by (cases "build_bqm L") (simp_all add: embed_build_fails)
  obtain solver_name where c: "properties sampler ''chip_id'' = Some solver_name"
    using assms b0 by (cases "properties sampler ''chip_id''") (simp_all add: embed_no_chip)
  have t: "t"
    using assms embed_no_load_facts(1) [of ext sampler L kwargs w] by (cases t) auto
  let ?p = "cache_filename solver_name L"
  let ?w1 = "log_event (Loadtxt ?p) w"
  let ?G = "to_networkx_graph b0"
  let ?A = "sampler_graph sampler"
  show ?thesis
  proof (cases "fst (np_loadtxt ext ?p w)")
    case (Inr a')
    note run = embed_load_returns [OF b0 c Inr, of kwargs]
    have "a' = a" "b0 = b" using assms t by (simp_all add: run)
    then show ?thesis
      using read [of solver_name] b0 c t Inr run by simp
  next
    case (Inl e)
    have ce: "e = ValueError \<or> e = FileNotFoundError"
    proof (rule ccontr)
      assume "\<not> (e = ValueError \<or> e = FileNotFoundError)"
      then have "e \<noteq> ValueError" "e \<noteq> FileNotFoundError" by simp_all
      from embed_load_raises [OF b0 c Inl this, of kwargs] assms t show False by simp
    qed
    note run = embed_miss [OF b0 c Inl ce, of kwargs]
    consider
        (a) e' w2 where "find_embeddings ext ?G ?A ?w1 = (Inl e', w2)"
      | (c) found where "find_embeddings ext ?G ?A ?w1
            = (embeddings_to_ndarray ext found (node_order ?G),
               ?w1\<lparr>trace := trace ?w1 @ [LowerBound, Search 10 6, ToNdarray (node_order ?G)]\<rparr>)"
          "raster_embedding_search ext ?G ?A 10 6 = Inr found"
      using find_embeddings_cases [of ext ?G ?A ?w1] by blast
    then show ?thesis
    proof cases
      case a
      then show ?thesis using assms t by (simp add: run)
    next
      case c2: c
      let ?w3 = "?w1\<lparr>trace := trace ?w1 @ [LowerBound, Search 10 6, ToNdarray (node_order ?G)]\<rparr>"
      obtain a' where cv: "embeddings_to_ndarray ext found (node_order ?G) = Inr a'"
        using assms t c2(1) by (cases "embeddings_to_ndarray ext found (node_order ?G)")
          (simp_all add: run)
      have r: "embed_square_lattice ext sampler L True kwargs w
                 = store_and_return ext ?p (Some a') b0 ?w3"
        by (simp add: run c2(1) cv)
      have "fst (store_and_return ext ?p (Some a') b0 ?w3) = Inr (a, b)"
        using assms t by (simp add: r)
      note sr = store_and_return_Inr [OF this]
      have eq: "a' = a" "b = b0"
        using sr by simp_all
      note w' = sr [THEN conjunct2, THEN conjunct2]
      have "snd (embed_square_lattice ext sampler L t kwargs w)
         = w\<lparr>files := (files w)(?p \<mapsto> format_int_matrix ext a),
             dirs := insert ''cached_embeddings/'' (dirs w),
             trace := trace w @ [Loadtxt ?p, LowerBound, Search 10 6,
               ToNdarray (node_order (to_networkx_graph b)), Makedirs ''cached_embeddings/'',
               Savetxt ?p]\<rparr>"
      proof -
        have "snd (embed_square_lattice ext sampler L t kwargs w)
                = snd (store_and_return ext ?p (Some a') b0 ?w3)"
          using t by (simp add: r)
        then show ?thesis
          unfolding w' by (simp add: eq log_event_def)
      qed
      then show ?thesis
        using searched [of solver_name found] b0 c t c2(2) cv eq by simp
    qed
  qed
qed

lemma embed_returns_built:
  "fst (embed_square_lattice ext sampler L t kwargs w) = Inr (a, b) \<Longrightarrow> build_bqm L = Inr b"
  by (erule embed_returns)

lemma embed_searched:
  assumes "fst (embed_square_lattice ext sampler L t kwargs w) = Inr (a, b)"
    and "Search 10 6 \<in> set (new_events w (snd (embed_square_lattice ext sampler L t kwargs w)))"
  obtains solver_name found where
    "build_bqm L = Inr b"
    "properties sampler ''chip_id'' = Some solver_name"
    "raster_embedding_search ext (to_networkx_graph b) (sampler_graph sampler) 10 6 = Inr found"
    "embeddings_to_ndarray ext found (node_order (to_networkx_graph b)) = Inr a"
    "snd (embed_square_lattice ext sampler L t kwargs w)
       = w\<lparr>files := (files w)(cache_filename solver_name L \<mapsto> format_int_matrix ext a),
           dirs := insert ''cached_embeddings/'' (dirs w),
           trace := trace w @ [Loadtxt (cache_filename solver_name L), LowerBound, Search 10 6,
             ToNdarray (node_order (to_networkx_graph b)), Makedirs ''cached_embeddings/'',
             Savetxt (cache_filename solver_name L)]\<rparr>"
  using assms(1)
proof (cases rule: embed_returns)
  case (read solver_name)
  then have False using assms(2) by (simp add: new_events_def log_event_def)
  then show ?thesis ..
next
  case (searched solver_name found)
  then show ?thesis using that by blast
qed

lemma embed_search_result:
  assumes "fst (embed_square_lattice ext sampler L t kwargs w) = Inr (a, b)"
    and "Search 10 6 \<in> set (new_events w (snd (embed_square_lattice ext sampler L t kwargs w)))"
  shows "\<exists>found. raster_embedding_search ext (to_networkx_graph b) (sampler_graph sampler) 10 6
                   = Inr found
                 \<and> embeddings_to_ndarray ext found (node_order (to_networkx_graph b)) = Inr a"
    and "ToNdarray (node_order (to_networkx_graph b))
           \<in> set (new_events w (snd (embed_square_lattice ext sampler L t kwargs w)))"
proof -
  from assms obtain solver_name found where
    s: "raster_embedding_search ext (to_networkx_graph b) (sampler_graph sampler) 10 6 = Inr found"
    "embeddings_to_ndarray ext found (node_order (to_networkx_graph b)) = Inr a"
    and w': "snd (embed_square_lattice ext sampler L t kwargs w)
       = w\<lparr>files := (files w)(cache_filename solver_name L \<mapsto> format_int_matrix ext a),
           dirs := insert ''cached_embeddings/'' (dirs w),
           trace := trace w @ [Loadtxt (cache_filename solver_name L), LowerBound, Search 10 6,
             ToNdarray (node_order (to_networkx_graph b)), Makedirs ''cached_embeddings/'',
             Savetxt (cache_filename solver_name L)]\<rparr>"
    by (rule embed_searched)
  from s show "\<exists>found. raster_embedding_search ext (to_networkx_graph b) (sampler_graph sampler) 10 6
                   = Inr found
                 \<and> embeddings_to_ndarray ext found (node_order (to_networkx_graph b)) = Inr a"
    by blast
  show "ToNdarray (node_order (to_networkx_graph b))
           \<in> set (new_events w (snd (embed_square_lattice ext sampler L t kwargs w)))"
    by (simp add: w' new_events_def)
qed

text \<open>A search that has stored its table is followed by a hit, provided the reader
  gives back the array whose text the writer wrote.\<close>

lemma fallback_then_hit:
  assumes "properties sampler ''chip_id'' = Some solver_name"
    and "fst (embed_square_lattice ext sampler L True kwargs w) = Inr (a, b)"
    and "Search 10 6 \<in> set (new_events w (snd (embed_square_lattice ext sampler L True kwargs w)))"
    and "parse_int_matrix ext (format_int_matrix ext a) = Inr a"
  shows "embed_square_lattice ext sampler L True kwargs'
           (snd (embed_square_lattice ext sampler L True kwargs w))
         = (Inr (a, b),
            log_event (Loadtxt (cache_filename solver_name L))
              (snd (embed_square_lattice ext sampler L True kwargs w)))"
proof -
  from assms(2,3) obtain name found where
    b: "build_bqm L = Inr b" and c: "properties sampler ''chip_id'' = Some name"
    and w': "snd (embed_square_lattice ext sampler L True kwargs w)
       = w\<lparr>files := (files w)(cache_filename name L \<mapsto> format_int_matrix ext a),
           dirs := insert ''cached_embeddings/'' (dirs w),
           trace := trace w @ [Loadtxt (cache_filename name L), LowerBound, Search 10 6,
             ToNdarray (node_order (to_networkx_graph b)), Makedirs ''cached_embeddings/'',
             Savetxt (cache_filename name L)]\<rparr>"
    by (rule embed_searched)
  have n: "name = solver_name" using c assms(1) by simp
  have "files (snd (embed_square_lattice ext sampler L True kwargs w))
          (cache_filename solver_name L) = Some (format_int_matrix ext a)"
    by (simp add: w' n)
  then show ?thesis
    by (rule embed_hit [OF b assms(1) _ assms(4)])
qed

subsection \<open>Runs on the test doubles\<close>

lemma build_bqm_2: "build_bqm 2 = Inr bqm_2"
  by code_simp

lemma chip_stub: "properties stub_sampler ''chip_id'' = Some ''chipA''"
  by (simp add: stub_sampler_def)

lemma cache_filename_chipA_2:
  "cache_filename ''chipA'' 2 = ''cached_embeddings/chipA__L02_square_embeddings_cached.txt''"
  by code_simp

lemma stub_parse_row: "stub_parse ''7 8 9 10'' = Inr [[7, 8, 9, 10]]"
  by code_simp



lemma node_order_bqm_2: "node_order (to_networkx_graph bqm_2) = [0, 1, 2, 3]"
  by code_simp

lemma stub_fields:
  "raster_breadth_subgraph_lower_bound (stub_externals found) G A = Inr 1"
  "raster_embedding_search (stub_externals found) G A t r = found"
  "embeddings_to_ndarray (stub_externals found) embs order = Inr embs"
  "parse_int_matrix (stub_externals found) = stub_parse"
  "format_int_matrix (stub_externals found) = stub_format"
  by (simp_all add: stub_externals_def)

lemma parent_dir_cache_filename:
  assumes "CHR ''/'' \<notin> set solver_name"
  shows "parent_dir (cache_filename solver_name L) = ''cached_embeddings/''"
proof -
  let ?rest = "solver_name @ ''__L'' @ format_0d 2 L @ ''_square_embeddings_cached.txt''"
  have "CHR ''/'' \<notin> set ?rest"
    using assms set_format_0d [of 2 L] by auto
  then have "dropWhile (\<lambda>c. c \<noteq> CHR ''/'') (rev ?rest @ rev ''cached_embeddings/'')
               = dropWhile (\<lambda>c. c \<noteq> CHR ''/'') (rev ''cached_embeddings/'')"
    by (intro dropWhile_append2) auto
  then show ?thesis
    by (simp add: parent_dir_def cache_filename_def)
qed

lemma empty_world_fields:
  "files empty_world = Map.empty" "dirs empty_world = {}" "trace empty_world = []"
  "fault empty_world = Map.empty"
  by (simp_all add: empty_world_def)

lemma stub_no_load:
  "embed_square_lattice (stub_externals found) stub_sampler 2 False no_kwargs empty_world
     = (Inl UnboundLocalError,
        \<lparr>files = Map.empty, dirs = {''cached_embeddings/''},
         trace = [Makedirs ''cached_embeddings/''], fault = Map.empty\<rparr>)"
  by (simp add: embed_no_load [OF build_bqm_2 chip_stub] store_and_return_def os_makedirs_def
      strip_slash_def Let_def log_event_def empty_world_def)

lemma stub_miss_general:
  assumes "fst (np_loadtxt (stub_externals (Inr t)) (cache_filename ''chipA'' 2) w)
             = Inl e" and "e = ValueError \<or> e = FileNotFoundError"
    and "fault w (Makedirs ''cached_embeddings/'') = None"
    and "files w ''cached_embeddings'' = None"
    and "fault w (Savetxt (cache_filename ''chipA'' 2)) = None"
  shows "embed_square_lattice (stub_externals (Inr t)) stub_sampler 2 True kwargs w
   = (Inr (t, bqm_2),
      w\<lparr>files := (files w)(cache_filename ''chipA'' 2 \<mapsto> stub_format t),
        dirs := insert ''cached_embeddings/'' (dirs w),
        trace := trace w @ [Loadtxt (cache_filename ''chipA'' 2), LowerBound, Search 10 6,
          ToNdarray [0, 1, 2, 3], Makedirs ''cached_embeddings/'',
          Savetxt (cache_filename ''chipA'' 2)]\<rparr>)"
proof -
  let ?p = "cache_filename ''chipA'' 2"
  let ?w2 = "log_event (Loadtxt ?p) w
               \<lparr>trace := trace (log_event (Loadtxt ?p) w)
                   @ [LowerBound, Search 10 6, ToNdarray [0, 1, 2, 3]]\<rparr>"
  have pd: "parent_dir ?p = ''cached_embeddings/''"
    by (rule parent_dir_cache_filename) simp
  have st: "store_and_return (stub_externals (Inr t)) ?p (Some t) bqm_2 ?w2
           = (Inr (t, bqm_2),
              ?w2\<lparr>files := (files ?w2)(?p \<mapsto> format_int_matrix (stub_externals (Inr t)) t),
                dirs := insert ''cached_embeddings/'' (dirs ?w2),
                trace := trace ?w2 @ [Makedirs ''cached_embeddings/'', Savetxt ?p]\<rparr>)"
    by (rule store_and_return_ok) (use assms(3-5) pd in \<open>simp_all add: log_event_def\<close>)
  show ?thesis
    by (simp add: embed_miss [OF build_bqm_2 chip_stub assms(1,2)]
        find_embeddings_ok [OF stub_fields(1) stub_fields(2)]
        stub_fields(3) node_order_bqm_2 st)
      (simp add: log_event_def stub_fields)
qed

lemma stub_miss_run:
  "embed_square_lattice (stub_externals (Inr t)) stub_sampler 2 True kwargs empty_world
   = (Inr (t, bqm_2),
      empty_world\<lparr>files := [cache_filename ''chipA'' 2 \<mapsto> stub_format t],
        dirs := {''cached_embeddings/''},
        trace := [Loadtxt (cache_filename ''chipA'' 2), LowerBound, Search 10 6,
          ToNdarray [0, 1, 2, 3], Makedirs ''cached_embeddings/'',
          Savetxt (cache_filename ''chipA'' 2)]\<rparr>)"
proof -
  have e: "fst (np_loadtxt (stub_externals (Inr t)) (cache_filename ''chipA'' 2) empty_world)
             = Inl FileNotFoundError"
    by (simp add: np_loadtxt_def empty_world_fields)
  show ?thesis
    using stub_miss_general [OF e, of kwargs] by (simp add: empty_world_fields)
qed

lemma node_labels_4: "map int [0..<nat 2 * nat 2] = [0, 1, 2, 3]"
  by code_simp

lemma stub_hit_run:
  "fst (embed_square_lattice (stub_externals found) stub_sampler 2 True kwargs
          (empty_world\<lparr>files := [cache_filename ''chipA'' 2 \<mapsto> ''7 8 9 10'']\<rparr>))
     = Inr ([[7, 8, 9, 10]], bqm_2)"
proof -
  let ?w = "empty_world\<lparr>files := [cache_filename ''chipA'' 2 \<mapsto> ''7 8 9 10'']\<rparr>"
  have f: "files ?w (cache_filename ''chipA'' 2) = Some ''7 8 9 10''"
    by simp
  have p: "parse_int_matrix (stub_externals found) ''7 8 9 10'' = Inr [[7, 8, 9, 10]]"
    by (simp only: stub_fields stub_parse_row)
  show ?thesis
    by (simp add: embed_hit [OF build_bqm_2 chip_stub f p])
qed

section \<open>The claims\<close>

text \<open>
  Claim C1 says that a call with \<open>try_to_load=False\<close> skips the read, searches, writes the
  table to the cache file and returns it with the model. The function does not do that: the
  search of lines 68 to 76 is inside the branch \<open>if try_to_load\<close>, so with
  \<open>try_to_load=False\<close> nothing is assigned to \<open>embeddings\<close>. For all collaborators, samplers,
  sizes and worlds the call ends in an exception, leaves every file as it was and makes no
  search; on the test doubles with \<open>L = 2\<close> it creates the directory and raises
  \<open>UnboundLocalError\<close>.
\<close>

theorem call_without_load_raises:
  "isl (fst (embed_square_lattice ext sampler L False kwargs w))
   \<and> files (snd (embed_square_lattice ext sampler L False kwargs w)) = files w
   \<and> Search 10 6 \<notin> set (new_events w (snd (embed_square_lattice ext sampler L False kwargs w)))
   \<and> embed_square_lattice (stub_externals (Inr [[4, 5, 6, 7]])) stub_sampler 2 False no_kwargs
        empty_world
      = (Inl UnboundLocalError,
         \<lparr>files = Map.empty, dirs = {''cached_embeddings/''},
          trace = [Makedirs ''cached_embeddings/''], fault = Map.empty\<rparr>)"
  using embed_no_load_facts(3) [of w ext sampler L kwargs]
  by (auto simp add: embed_no_load_facts(1,2) stub_no_load)

text \<open>
  Claim C2, as stated, says that the cyclic edge at the site \<open>(x, y)\<close> has weight \<open>-1\<close>
  when \<open>x + y\<close> is even, and that for \<open>L = 2\<close> the edge between nodes 0 and 1 has weight
  \<open>-1\<close>. For \<open>L = 2\<close> the sites \<open>(0, 0)\<close> and \<open>(0, 1)\<close> have the same cyclic edge
  \<open>{0, 1}\<close>: the first sets it to \<open>-1\<close>, the second (where \<open>x + y\<close> is odd) sets it to
  \<open>+1\<close>, and \<open>set_quadratic\<close> overwrites. The model built for \<open>L = 2\<close> has weight
  \<open>+1\<close> on that edge.
\<close>

theorem size_two_weight_counterexample:
  "build_bqm 2 = Inr bqm_2
   \<and> even (0 + 0 :: int)
   \<and> get_quadratic bqm_2 (0 * 2 + 0) (0 * 2 + (0 + 1) mod 2) = Some 1
   \<and> get_quadratic bqm_2 0 1 \<noteq> Some (- 1)"
  by (simp add: build_bqm_2) (simp add: bqm_2_def get_quadratic_def edge_def)

text \<open>
  Claim C2, amended. For every \<open>L \<ge> 3\<close> and every site \<open>(x, y)\<close> of the lattice the
  construction succeeds and the edge from \<open>x * L + y\<close> to its cyclic neighbour
  \<open>x * L + (y + 1) mod L\<close> has weight \<open>-1\<close> when \<open>x + y\<close> is even and \<open>+1\<close> when it
  is odd. The construction is a function of \<open>L\<close> alone: the models returned by any two
  successful calls with the same \<open>L\<close> are equal, whatever the collaborators, the sampler,
  the flag and the world. For \<open>L = 2\<close> the nodes are 0, 1, 2, 3 and the edge between 0
  and 1 has weight \<open>+1\<close>.
\<close>

theorem lattice_edge_weights:
  "(3 \<le> L \<and> 0 \<le> x \<and> x < L \<and> 0 \<le> y \<and> y < L \<longrightarrow>
      (\<exists>b. build_bqm L = Inr b
           \<and> get_quadratic b (x * L + y) (x * L + (y + 1) mod L)
               = Some (if even (x + y) then - 1 else 1)))
   \<and> (fst (embed_square_lattice ext sampler L flag kwargs w) = Inr (a, b)
        \<and> fst (embed_square_lattice ext' sampler' L flag' kwargs' w') = Inr (a', b')
      \<longrightarrow> b = b' \<and> build_bqm L = Inr b)
   \<and> build_bqm 2 = Inr bqm_2
   \<and> set (variables bqm_2) = {0, 1, 2, 3}
   \<and> get_quadratic bqm_2 0 1 = Some 1"
proof -
  have "\<exists>b. build_bqm L = Inr b
           \<and> get_quadratic b (x * L + y) (x * L + (y + 1) mod L)
               = Some (if even (x + y) then - 1 else 1)"
    if h: "3 \<le> L" "0 \<le> x" "x < L" "0 \<le> y" "y < L"
  proof -
    from h(1) have "L \<noteq> 1" by simp
    then obtain c where c: "build_bqm L = Inr c" using build_bqm_total by blast
    have "(x + y) mod 2 \<noteq> 0 \<longleftrightarrow> \<not> even (x + y)"
      by presburger
    with build_bqm_weight [OF h c] c show ?thesis by auto
  qed
  moreover have "b = b' \<and> build_bqm L = Inr b"
    if "fst (embed_square_lattice ext sampler L flag kwargs w) = Inr (a, b)"
      "fst (embed_square_lattice ext' sampler' L flag' kwargs' w') = Inr (a', b')"
    using embed_returns_built [OF that(1)] embed_returns_built [OF that(2)] by simp
  moreover have "set (variables bqm_2) = {0, 1, 2, 3}"
    by (auto simp add: bqm_2_def variables_def)
  moreover have "get_quadratic bqm_2 0 1 = Some 1"
    by (simp add: bqm_2_def get_quadratic_def edge_def)
  ultimately show ?thesis using build_bqm_2 by blast
qed

theorem lattice_edge_weights_witness:
  "(\<exists>b. build_bqm 3 = Inr b \<and> get_quadratic b 0 1 = Some (- 1))
   \<and> (\<exists>b. build_bqm 3 = Inr b \<and> get_quadratic b 5 3 = Some 1)
   \<and> fst (embed_square_lattice (stub_externals (Inr [[4, 5, 6, 7]])) stub_sampler 2 True
            no_kwargs empty_world) = Inr ([[4, 5, 6, 7]], bqm_2)
   \<and> fst (embed_square_lattice (stub_externals (Inl RuntimeError)) stub_sampler 2 True
            no_kwargs (empty_world\<lparr>files := [cache_filename ''chipA'' 2 \<mapsto> ''7 8 9 10'']\<rparr>))
       = Inr ([[7, 8, 9, 10]], bqm_2)
   \<and> build_bqm 2 = Inr bqm_2
   \<and> get_quadratic bqm_2 0 1 = Some 1"
proof -
  have r1: "fst (embed_square_lattice (stub_externals (Inr [[4, 5, 6, 7]])) stub_sampler 2 True
            no_kwargs empty_world) = Inr ([[4, 5, 6, 7]], bqm_2)"
    by (simp add: stub_miss_run)
  have r2: "fst (embed_square_lattice (stub_externals (Inl RuntimeError)) stub_sampler 2 True
            no_kwargs (empty_world\<lparr>files := [cache_filename ''chipA'' 2 \<mapsto> ''7 8 9 10'']\<rparr>))
       = Inr ([[7, 8, 9, 10]], bqm_2)"
    by (rule stub_hit_run)
  have a: "\<exists>b. build_bqm 3 = Inr b \<and> get_quadratic b 0 1 = Some (- 1)"
    using lattice_edge_weights [where L = 3 and x = 0 and y = 0, THEN conjunct1] by simp
  have b: "\<exists>b. build_bqm 3 = Inr b \<and> get_quadratic b 5 3 = Some 1"
    using lattice_edge_weights [where L = 3 and x = 1 and y = 2, THEN conjunct1] by simp
  have c: "build_bqm 2 = Inr bqm_2"
    using lattice_edge_weights [where L = 2
        and ext = "stub_externals (Inr [[4, 5, 6, 7]])" and sampler = stub_sampler
        and flag = True and kwargs = no_kwargs and w = empty_world
        and a = "[[4, 5, 6, 7]]" and b = bqm_2
        and ext' = "stub_externals (Inl RuntimeError)" and sampler' = stub_sampler
        and flag' = True and kwargs' = no_kwargs
        and w' = "empty_world\<lparr>files := [cache_filename ''chipA'' 2 \<mapsto> ''7 8 9 10'']\<rparr>"
        and a' = "[[7, 8, 9, 10]]" and b' = bqm_2,
        THEN conjunct2, THEN conjunct1] r1 r2
    by blast
  have d: "get_quadratic bqm_2 0 1 = Some 1"
    using lattice_edge_weights [where L = 2, THEN conjunct2, THEN conjunct2] by blast
  from a b c d r1 r2 show ?thesis by blast
qed




text \<open>
  Claim C5, as stated, says that every call with \<open>try_to_load=True\<close> whose cache file
  exists and parses returns the parsed table at once. With \<open>L = 1\<close> it does not: on the
  test doubles, with a cache file for \<open>chipA\<close> and \<open>L = 1\<close> that parses, the call raises
  \<open>ValueError\<close> while it builds the model and never reads the file.
\<close>

theorem cache_hit_returns_at_once_counterexample:
  "files cached_world_1 (cache_filename ''chipA'' 1) = Some ''7''
   \<and> parse_int_matrix (stub_externals (Inl RuntimeError)) ''7'' = Inr [[7]]
   \<and> embed_square_lattice (stub_externals (Inl RuntimeError)) stub_sampler 1 True no_kwargs
        cached_world_1 = (Inl ValueError, cached_world_1)"
proof -
  have "cache_filename ''chipA'' 1 = ''cached_embeddings/chipA__L01_square_embeddings_cached.txt''"
    by code_simp
  then have f: "files cached_world_1 (cache_filename ''chipA'' 1) = Some ''7''"
    by (simp add: cached_world_1_def)
  have "stub_parse ''7'' = Inr [[7]]"
    by code_simp
  then have p: "parse_int_matrix (stub_externals (Inl RuntimeError)) ''7'' = Inr [[7]]"
    by (simp only: stub_fields)
  have "embed_square_lattice (stub_externals (Inl RuntimeError)) stub_sampler 1 True no_kwargs
        cached_world_1 = (Inl ValueError, cached_world_1)"
    by (simp add: embed_square_lattice_def build_bqm_1)
  with f p show ?thesis by blast
qed

text \<open>
  Claim C5, amended. A call with \<open>try_to_load=True\<close> and a size other than 1, by a sampler
  that names its chip, whose cache file exists and parses, returns the parsed table with
  the model just built, and does nothing else: the files and the directories are as
  before, and the read of the cache file is the only call it makes (no estimate, no
  search, no directory, no write).
\<close>

theorem cache_hit_returns_at_once:
  assumes "L \<noteq> 1"
    and "properties sampler ''chip_id'' = Some solver_name"
    and "files w (cache_filename solver_name L) = Some text"
    and "parse_int_matrix ext text = Inr a"
  shows "\<exists>b. build_bqm L = Inr b
     \<and> fst (embed_square_lattice ext sampler L True kwargs w) = Inr (a, b)
     \<and> files (snd (embed_square_lattice ext sampler L True kwargs w)) = files w
     \<and> dirs (snd (embed_square_lattice ext sampler L True kwargs w)) = dirs w
     \<and> new_events w (snd (embed_square_lattice ext sampler L True kwargs w))
         = [Loadtxt (cache_filename solver_name L)]"
proof -
  obtain b where b: "build_bqm L = Inr b"
    using build_bqm_total [OF assms(1)] by blast
  show ?thesis
    by (simp add: b embed_hit [OF b assms(2-4)] files_log_event dirs_log_event trace_log_event
        new_events_def)
qed

theorem cache_hit_returns_at_once_witness:
  "(2 :: int) \<noteq> 1
   \<and> properties stub_sampler ''chip_id'' = Some ''chipA''
   \<and> parse_int_matrix (stub_externals (Inl RuntimeError)) ''7 8 9 10'' = Inr [[7, 8, 9, 10]]
   \<and> build_bqm 2 = Inr bqm_2
   \<and> fst (embed_square_lattice (stub_externals (Inl RuntimeError)) stub_sampler 2 True no_kwargs
       (empty_world\<lparr>files := [cache_filename ''chipA'' 2 \<mapsto> ''7 8 9 10'']\<rparr>))
       = Inr ([[7, 8, 9, 10]], bqm_2)
   \<and> new_events (empty_world\<lparr>files := [cache_filename ''chipA'' 2 \<mapsto> ''7 8 9 10'']\<rparr>)
       (snd (embed_square_lattice (stub_externals (Inl RuntimeError)) stub_sampler 2 True no_kwargs
          (empty_world\<lparr>files := [cache_filename ''chipA'' 2 \<mapsto> ''7 8 9 10'']\<rparr>)))
       = [Loadtxt (cache_filename ''chipA'' 2)]"
proof -
  let ?w = "empty_world\<lparr>files := [cache_filename ''chipA'' 2 \<mapsto> ''7 8 9 10'']\<rparr>"
  let ?run = "embed_square_lattice (stub_externals (Inl RuntimeError)) stub_sampler 2 True
                no_kwargs ?w"
  have two: "(2 :: int) \<noteq> 1" by simp
  have f: "files ?w (cache_filename ''chipA'' 2) = Some ''7 8 9 10''"
    by simp
  have p: "parse_int_matrix (stub_externals (Inl RuntimeError)) ''7 8 9 10'' = Inr [[7, 8, 9, 10]]"
    by (simp only: stub_fields stub_parse_row)
  obtain b where b: "build_bqm 2 = Inr b"
    and r: "fst ?run = Inr ([[7, 8, 9, 10]], b)"
      "new_events ?w (snd ?run) = [Loadtxt (cache_filename ''chipA'' 2)]"
    using cache_hit_returns_at_once [OF two chip_stub f p, of no_kwargs] by blast
  have "b = bqm_2" using b build_bqm_2 by simp
  with two chip_stub p build_bqm_2 r show ?thesis by blast
qed

text \<open>
  Claim C6: a call that has made the search and returns a table has converted the result
  of the search with the node order \<open>sorted(G.nodes())\<close>, and that order is the list
  \<open>0, 1, ..., L * L - 1\<close>: it depends on \<open>L\<close> only, not on the world the call started in
  nor on the collaborators, and its entry \<open>j\<close> is the node \<open>j\<close>. So column \<open>j\<close> of the
  table stands for node \<open>j\<close> in every such call.
\<close>

theorem fallback_column_order:
  assumes "fst (embed_square_lattice ext sampler L try_to_load kwargs w) = Inr (a, b)"
    and "Search 10 6
           \<in> set (new_events w (snd (embed_square_lattice ext sampler L try_to_load kwargs w)))"
  shows "node_order (to_networkx_graph b) = map int [0..<nat L * nat L]
     \<and> (\<exists>found. raster_embedding_search ext (to_networkx_graph b) (sampler_graph sampler) 10 6
                   = Inr found
                 \<and> embeddings_to_ndarray ext found (map int [0..<nat L * nat L]) = Inr a)
     \<and> ToNdarray (map int [0..<nat L * nat L])
           \<in> set (new_events w (snd (embed_square_lattice ext sampler L try_to_load kwargs w)))
     \<and> (\<forall>j. j < nat L * nat L \<longrightarrow> map int [0..<nat L * nat L] ! j = int j)"
proof -
  have "build_bqm L = Inr b" using assms(1) by (rule embed_returns_built)
  then have o: "node_order (to_networkx_graph b) = map int [0..<nat L * nat L]"
    by (rule build_bqm_node_order)
  show ?thesis
    using embed_search_result [OF assms] o by simp
qed

theorem fallback_column_order_witness:
  "fst (embed_square_lattice (stub_externals (Inr [[4, 5, 6, 7]])) stub_sampler 2 True
          no_kwargs empty_world) = Inr ([[4, 5, 6, 7]], bqm_2)
   \<and> Search 10 6 \<in> set (new_events empty_world
         (snd (embed_square_lattice (stub_externals (Inr [[4, 5, 6, 7]])) stub_sampler 2 True
            no_kwargs empty_world)))
   \<and> node_order (to_networkx_graph bqm_2) = [0, 1, 2, 3]
   \<and> ToNdarray [0, 1, 2, 3] \<in> set (new_events empty_world
         (snd (embed_square_lattice (stub_externals (Inr [[4, 5, 6, 7]])) stub_sampler 2 True
            no_kwargs empty_world)))
   \<and> [0, 1, 2, 3 :: int] ! 3 = int 3"
proof -
  let ?run = "embed_square_lattice (stub_externals (Inr [[4, 5, 6, 7]])) stub_sampler 2 True
            no_kwargs empty_world"
  have r: "fst ?run = Inr ([[4, 5, 6, 7]], bqm_2)"
    by (simp add: stub_miss_run)
  have s: "Search 10 6 \<in> set (new_events empty_world (snd ?run))"
    by (simp add: stub_miss_run new_events_def empty_world_fields)
  show ?thesis
    using fallback_column_order [OF r s] r s
    by (simp only: node_labels_4) simp
qed

text \<open>
  Claim C7: the cache path is \<open>cached_embeddings/\<close>, the chip's name, \<open>__L\<close>, the size
  written with at least two digits (a zero in front of a single digit), and
  \<open>_square_embeddings_cached.txt\<close>. Two keys that differ in the name or in the size have
  different paths, and a call for one key leaves the file at the path of any other key as
  it was and neither reads nor writes that path.
\<close>

theorem cache_key_isolation:
  assumes "properties sampler ''chip_id'' = Some solver_name"
    and "(other_name, L') \<noteq> (solver_name, L)"
  shows "cache_filename solver_name L
           = ''cached_embeddings/'' @ solver_name @ ''__L'' @ format_0d 2 L
               @ ''_square_embeddings_cached.txt''
     \<and> format_0d 2 L = (if L < 0 then CHR ''-'' # dec (nat (- L))
                        else if L < 10 then [CHR ''0'', digit_char (nat L)]
                        else dec (nat L))
     \<and> cache_filename other_name L' \<noteq> cache_filename solver_name L
     \<and> files (snd (embed_square_lattice ext sampler L try_to_load kwargs w))
           (cache_filename other_name L') = files w (cache_filename other_name L')
     \<and> Loadtxt (cache_filename other_name L')
           \<notin> set (new_events w (snd (embed_square_lattice ext sampler L try_to_load kwargs w)))
     \<and> Savetxt (cache_filename other_name L')
           \<notin> set (new_events w (snd (embed_square_lattice ext sampler L try_to_load kwargs w)))"
proof -
  have ne: "cache_filename other_name L' \<noteq> cache_filename solver_name L"
    using cache_filename_inj [of other_name L' solver_name L] assms(2) by auto
  have fr: "files (snd (embed_square_lattice ext sampler L try_to_load kwargs w))
           (cache_filename other_name L') = files w (cache_filename other_name L')"
    using assms(1) ne by (rule embed_files_frame)
  have ev: "Loadtxt (cache_filename other_name L')
           \<notin> set (new_events w (snd (embed_square_lattice ext sampler L try_to_load kwargs w)))"
    "Savetxt (cache_filename other_name L')
           \<notin> set (new_events w (snd (embed_square_lattice ext sampler L try_to_load kwargs w)))"
    using embed_footprint [OF assms(1), of w ext L try_to_load kwargs] ne by auto
  show ?thesis
    using ne fr ev by (simp add: cache_filename_def format_0d_2)
qed

theorem cache_key_isolation_witness:
  "properties stub_sampler ''chip_id'' = Some ''chipA''
   \<and> (''chipB'', 4) \<noteq> (''chipA'', 4 :: int)
   \<and> (''chipA'', 5) \<noteq> (''chipA'', 4 :: int)
   \<and> cache_filename ''chipA'' 4 = ''cached_embeddings/chipA__L04_square_embeddings_cached.txt''
   \<and> cache_filename ''chipB'' 4 \<noteq> cache_filename ''chipA'' 4
   \<and> cache_filename ''chipA'' 5 \<noteq> cache_filename ''chipA'' 4
   \<and> files (snd (embed_square_lattice (stub_externals (Inr [[4, 5, 6, 7]])) stub_sampler 4 True
                   no_kwargs empty_world)) (cache_filename ''chipB'' 4)
       = files empty_world (cache_filename ''chipB'' 4)
   \<and> Savetxt (cache_filename ''chipA'' 5)
       \<notin> set (new_events empty_world
                (snd (embed_square_lattice (stub_externals (Inr [[4, 5, 6, 7]])) stub_sampler 4
                        True no_kwargs empty_world)))"
proof -
  have b: "(''chipB'', 4) \<noteq> (''chipA'', 4 :: int)" by simp
  have a: "(''chipA'', 5) \<noteq> (''chipA'', 4 :: int)" by simp
  have p: "cache_filename ''chipA'' 4 = ''cached_embeddings/chipA__L04_square_embeddings_cached.txt''"
    by code_simp
  have t1: "cache_filename ''chipB'' 4 \<noteq> cache_filename ''chipA'' 4
      \<and> files (snd (embed_square_lattice (stub_externals (Inr [[4, 5, 6, 7]])) stub_sampler 4 True
                   no_kwargs empty_world)) (cache_filename ''chipB'' 4)
          = files empty_world (cache_filename ''chipB'' 4)"
    using cache_key_isolation [OF chip_stub b, of "stub_externals (Inr [[4, 5, 6, 7]])" True
        no_kwargs empty_world] by blast
  have t2: "cache_filename ''chipA'' 5 \<noteq> cache_filename ''chipA'' 4
      \<and> Savetxt (cache_filename ''chipA'' 5)
       \<notin> set (new_events empty_world
                (snd (embed_square_lattice (stub_externals (Inr [[4, 5, 6, 7]])) stub_sampler 4
                        True no_kwargs empty_world)))"
    using cache_key_isolation [OF chip_stub a, of "stub_externals (Inr [[4, 5, 6, 7]])" True
        no_kwargs empty_world] by blast
  from t1 t2 chip_stub p a b show ?thesis by blast
qed

text \<open>
  Claim C8: when a call reaches the search (the model is built, the chip is named, the read
  of the cache file failed as in C4, the estimate returned) and the search raises, the call
  ends with the same exception. The files and the directories are as before, and the calls
  made are the read, the estimate and one search with raster breadth 6: no second search,
  no other breadth, no directory, no write.
\<close>

theorem search_failure_propagates:
  assumes "build_bqm L = Inr b"
    and "properties sampler ''chip_id'' = Some solver_name"
    and "files w (cache_filename solver_name L) = None
         \<or> (\<exists>text. files w (cache_filename solver_name L) = Some text
                   \<and> parse_int_matrix ext text = Inl ValueError)"
    and "raster_breadth_subgraph_lower_bound ext (to_networkx_graph b) (sampler_graph sampler)
           = Inr lb"
    and "raster_embedding_search ext (to_networkx_graph b) (sampler_graph sampler) 10 6
           = Inl e"
  shows "fst (embed_square_lattice ext sampler L True kwargs w) = Inl e
     \<and> files (snd (embed_square_lattice ext sampler L True kwargs w)) = files w
     \<and> dirs (snd (embed_square_lattice ext sampler L True kwargs w)) = dirs w
     \<and> new_events w (snd (embed_square_lattice ext sampler L True kwargs w))
         = [Loadtxt (cache_filename solver_name L), LowerBound, Search 10 6]"
proof -
  obtain e' where e: "fst (np_loadtxt ext (cache_filename solver_name L) w) = Inl e'"
    "e' = ValueError \<or> e' = FileNotFoundError"
    using load_fails_cases [OF assms(3)] by blast
  show ?thesis
    by (simp add: embed_miss [OF assms(1,2) e] find_embeddings_search_fails [OF assms(4,5)]
        log_event_def new_events_def)
qed

theorem search_failure_propagates_witness:
  "build_bqm 2 = Inr bqm_2
   \<and> properties stub_sampler ''chip_id'' = Some ''chipA''
   \<and> files empty_world (cache_filename ''chipA'' 2) = None
   \<and> raster_embedding_search (stub_externals (Inl RuntimeError)) (to_networkx_graph bqm_2)
        (sampler_graph stub_sampler) 10 6 = Inl RuntimeError
   \<and> fst (embed_square_lattice (stub_externals (Inl RuntimeError)) stub_sampler 2 True
            no_kwargs empty_world) = Inl RuntimeError
   \<and> files (snd (embed_square_lattice (stub_externals (Inl RuntimeError)) stub_sampler 2 True
            no_kwargs empty_world)) = Map.empty
   \<and> new_events empty_world (snd (embed_square_lattice (stub_externals (Inl RuntimeError))
            stub_sampler 2 True no_kwargs empty_world))
       = [Loadtxt ''cached_embeddings/chipA__L02_square_embeddings_cached.txt'', LowerBound,
          Search 10 6]"
proof -
  let ?ext = "stub_externals (Inl RuntimeError)"
  have f: "files empty_world (cache_filename ''chipA'' 2) = None"
    by (simp add: empty_world_def)
  have miss: "files empty_world (cache_filename ''chipA'' 2) = None
         \<or> (\<exists>text. files empty_world (cache_filename ''chipA'' 2) = Some text
                   \<and> parse_int_matrix ?ext text = Inl ValueError)"
    using f by blast
  have lb: "raster_breadth_subgraph_lower_bound ?ext (to_networkx_graph bqm_2)
              (sampler_graph stub_sampler) = Inr 1"
    by (simp only: stub_fields)
  have s: "raster_embedding_search ?ext (to_networkx_graph bqm_2) (sampler_graph stub_sampler)
             10 6 = Inl RuntimeError"
    by (simp only: stub_fields)
  have e: "files empty_world = Map.empty"
    by (simp add: empty_world_def)
  show ?thesis
    using search_failure_propagates [OF build_bqm_2 chip_stub miss lb s, of no_kwargs] f
    by (simp only: build_bqm_2 chip_stub stub_fields cache_filename_chipA_2 e simp_thms)
qed

text \<open>
  Claim C9: the keyword arguments have no effect. Two calls that differ in them only give
  the same result and the same world, and every search a call makes has timeout 10 and
  raster breadth 6, whatever the keyword arguments say.
\<close>

theorem kwargs_have_no_effect:
  "embed_square_lattice ext sampler L try_to_load kwargs w
     = embed_square_lattice ext sampler L try_to_load kwargs' w
   \<and> (\<forall>timeout breadth.
         Search timeout breadth
           \<in> set (new_events w (snd (embed_square_lattice ext sampler L try_to_load kwargs w)))
         \<longrightarrow> timeout = 10 \<and> breadth = 6)"
  using embed_search_events [of _ _ w ext sampler L try_to_load kwargs]
  by (simp add: embed_kwargs [of ext sampler L try_to_load kwargs w kwargs'])

theorem kwargs_have_no_effect_witness:
  "embed_square_lattice (stub_externals (Inr [[4, 5, 6, 7]])) stub_sampler 2 True
       [''raster_breadth'' \<mapsto> 5::int, ''max_num_emb'' \<mapsto> 1, ''timeout'' \<mapsto> 100] empty_world
     = embed_square_lattice (stub_externals (Inr [[4, 5, 6, 7]])) stub_sampler 2 True
         no_kwargs empty_world
   \<and> Search 10 6 \<in> set (new_events empty_world
        (snd (embed_square_lattice (stub_externals (Inr [[4, 5, 6, 7]])) stub_sampler 2 True
           [''raster_breadth'' \<mapsto> 5::int, ''max_num_emb'' \<mapsto> 1, ''timeout'' \<mapsto> 100] empty_world)))
   \<and> Search 100 5 \<notin> set (new_events empty_world
        (snd (embed_square_lattice (stub_externals (Inr [[4, 5, 6, 7]])) stub_sampler 2 True
           [''raster_breadth'' \<mapsto> 5::int, ''max_num_emb'' \<mapsto> 1, ''timeout'' \<mapsto> 100] empty_world)))"
proof -
  let ?ext = "stub_externals (Inr [[4, 5, 6, 7]])"
  let ?kw = "[''raster_breadth'' \<mapsto> 5::int, ''max_num_emb'' \<mapsto> 1, ''timeout'' \<mapsto> 100]"
  have run: "Search 10 6 \<in> set (new_events empty_world
        (snd (embed_square_lattice ?ext stub_sampler 2 True ?kw empty_world)))"
    by (simp add: stub_miss_run new_events_def empty_world_fields)
  have k: "embed_square_lattice ?ext stub_sampler 2 True ?kw empty_world
     = embed_square_lattice ?ext stub_sampler 2 True no_kwargs empty_world
   \<and> (\<forall>timeout breadth.
         Search timeout breadth
           \<in> set (new_events empty_world
                    (snd (embed_square_lattice ?ext stub_sampler 2 True ?kw empty_world)))
         \<longrightarrow> timeout = 10 \<and> breadth = 6)"
    by (rule kwargs_have_no_effect)
  then have "Search 100 5 \<notin> set (new_events empty_world
        (snd (embed_square_lattice ?ext stub_sampler 2 True ?kw empty_world)))"
    by fastforce
  with k run show ?thesis by blast
qed

text \<open>
  Claim C10: for \<open>L = 1\<close> the only site is \<open>(0, 0)\<close>, its cyclic neighbour
  \<open>0 * 1 + ((0 + 1) mod 1)\<close> is the site itself, and \<open>set_quadratic\<close> refuses the pair.
  The construction raises \<open>ValueError\<close>, and so does every call with \<open>L = 1\<close>, whatever the
  collaborators, the sampler, the flag and the world; the world is returned as it was, so
  nothing was read, searched or written.
\<close>

theorem lattice_of_size_one_fails:
  "range_py 1 = [0]
   \<and> set_quadratic (0 * 1 + 0) (0 * 1 + ((0 + 1) mod 1)) bias b = Inl ValueError
   \<and> build_bqm 1 = Inl ValueError
   \<and> embed_square_lattice ext sampler 1 try_to_load kwargs w = (Inl ValueError, w)"
  by (simp add: set_quadratic_def build_bqm_1 embed_square_lattice_def range_py_1)

end
